theory Spec2Isabelle
  imports Complex_Main "HOL-Library.Sublist"
begin

section \<open>JavaScript values used by the feature service\<close>

text \<open>
  Object ids, page sizes, offsets and counts are integers; they are modelled as \<open>int\<close>
  (exact arithmetic: the model does not follow IEEE rounding beyond \<open>2^53\<close>).
  A quotient or a page count can also be \<open>Infinity\<close>, \<open>-Infinity\<close> or \<open>NaN\<close>
  (division by a zero page size, arithmetic on \<open>undefined\<close>), hence \<open>jsnum\<close>.
\<close>

datatype jsnum = Fin rat | PosInf | NegInf | NaN

text \<open>\<open>a / b\<close> on two integers.\<close>

definition js_div :: "int \<Rightarrow> int \<Rightarrow> jsnum" where
  "js_div a b =
     (if b \<noteq> 0 then Fin (of_int a / of_int b)
      else if 0 < a then PosInf else if a < 0 then NegInf else NaN)"

text \<open>\<open>Math.ceil(x)\<close>.\<close>

fun js_ceil :: "jsnum \<Rightarrow> jsnum" where
  "js_ceil (Fin q) = Fin (of_int \<lceil>q\<rceil>)"
| "js_ceil x = x"

text \<open>\<open>Math.max(x, 1)\<close>: \<open>NaN\<close> is contagious.\<close>

fun js_max1 :: "jsnum \<Rightarrow> jsnum" where
  "js_max1 (Fin q) = Fin (max q 1)"
| "js_max1 PosInf = PosInf"
| "js_max1 NegInf = Fin 1"
| "js_max1 NaN = NaN"

text \<open>\<open>x + 1\<close> and \<open>x - 1\<close>.\<close>

fun js_succ :: "jsnum \<Rightarrow> jsnum" where
  "js_succ (Fin q) = Fin (q + 1)"
| "js_succ x = x"

fun js_pred :: "jsnum \<Rightarrow> jsnum" where
  "js_pred (Fin q) = Fin (q - 1)"
| "js_pred x = x"

text \<open>\<open>i < x\<close> and \<open>i === x\<close> for a loop counter \<open>i\<close>: every comparison with \<open>NaN\<close> is false.\<close>

fun js_lt :: "nat \<Rightarrow> jsnum \<Rightarrow> bool" where
  "js_lt i (Fin q) = (of_nat i < q)"
| "js_lt i PosInf = True"
| "js_lt i NegInf = False"
| "js_lt i NaN = False"

fun js_eq :: "nat \<Rightarrow> jsnum \<Rightarrow> bool" where
  "js_eq i (Fin q) = (of_nat i = q)"
| "js_eq i x = False"

text \<open>The decimal text of an integer, as string concatenation (\<open>'' + n\<close>) produces it.\<close>

definition digit :: "nat \<Rightarrow> char" where
  "digit d = ''0123456789'' ! d"

fun show_nat :: "nat \<Rightarrow> string" where
  "show_nat n = (if n < 10 then [digit n] else show_nat (n div 10) @ [digit (n mod 10)])"

declare show_nat.simps [simp del]

definition show_int :: "int \<Rightarrow> string" where
  "show_int i = (if i < 0 then CHR ''-'' # show_nat (nat (- i)) else show_nat (nat i))"

text \<open>
  A value that is a number, a string or missing: the layer index (taken from the URL as a
  string, from the options as a number), \<open>maxRecordCount\<close> of the layer document.
\<close>

datatype scalar = Undefined | Num int | Str string

fun truthy :: "scalar \<Rightarrow> bool" where
  "truthy Undefined = False"
| "truthy (Num n) = (n \<noteq> 0)"
| "truthy (Str s) = (s \<noteq> [])"

text \<open>\<open>a || b\<close>.\<close>

definition or_else :: "scalar \<Rightarrow> scalar \<Rightarrow> scalar" where
  "or_else a b = (if truthy a then a else b)"

text \<open>The text of a value inside a string concatenation.\<close>

fun to_text :: "scalar \<Rightarrow> string" where
  "to_text Undefined = ''undefined''"
| "to_text (Num n) = show_int n"
| "to_text (Str s) = s"

section \<open>Strings\<close>

text \<open>
  \<open>s.split(sep)\<close> for a non-empty separator (the source splits on \<open>'/'\<close> and \<open>'//'\<close>):
  the pieces between the occurrences of \<open>sep\<close>, found from left to right.
\<close>

function split_from :: "string \<Rightarrow> string \<Rightarrow> string \<Rightarrow> string list" where
  "split_from sep piece [] = [piece]"
| "split_from sep piece (c # cs) =
     (if sep \<noteq> [] \<and> prefix sep (c # cs)
      then piece # split_from sep [] (drop (length sep) (c # cs))
      else split_from sep (piece @ [c]) cs)"
  by pat_completeness auto
termination
  by (relation "measure (\<lambda>(sep, piece, s). length s)") auto

definition split :: "string \<Rightarrow> string \<Rightarrow> string list" where
  "split sep s = split_from sep [] s"

text \<open>
  \<open>parseInt(s, 10)\<close>: leading white space, an optional sign, then the longest run of
  decimal digits; \<open>None\<close> is \<open>NaN\<close> (no digit there).
\<close>

definition is_space :: "char \<Rightarrow> bool" where
  "is_space c = (c \<in> set [CHR '' '', CHR 0x09, CHR 0x0A, CHR 0x0B, CHR 0x0C, CHR 0x0D])"

definition is_digit :: "char \<Rightarrow> bool" where
  "is_digit c = (c \<in> set ''0123456789'')"

definition digit_value :: "char \<Rightarrow> nat" where
  "digit_value c = of_char c - 48"

definition digits_value :: "string \<Rightarrow> nat" where
  "digits_value ds = foldl (\<lambda>a c. 10 * a + digit_value c) 0 ds"

definition parseInt :: "string \<Rightarrow> int option" where
  "parseInt s =
     (let t = dropWhile is_space s;
          neg = (t \<noteq> [] \<and> hd t = CHR ''-'');
          u = (if t \<noteq> [] \<and> (hd t = CHR ''-'' \<or> hd t = CHR ''+'') then tl t else t);
          ds = takeWhile is_digit u
      in if ds = [] then None
         else Some (if neg then - int (digits_value ds) else int (digits_value ds)))"

section \<open>The service object\<close>

record options =
  layer_option :: scalar
  objectIdField :: "string option"

text \<open>A page request \<open>{req: pageUrl}\<close>; the executor later adds the \<open>retry\<close> counter.\<close>

record task =
  req :: string
  retry :: "int option"

definition new_task :: "string \<Rightarrow> task" where
  "new_task pageUrl = \<lparr>req = pageUrl, retry = None\<rparr>"

text \<open>
  The page queue of the async library: its concurrency, the tasks waiting for a worker
  (\<open>q.tasks\<close>) and the tasks in flight, which a worker has taken and whose callback has not
  been called yet. \<open>kill\<close> is the library's operation \<open>q.drain = noop; q.tasks = []\<close>: it
  empties the waiting tasks and does not touch the tasks in flight.
\<close>

record queue =
  concurrency :: nat
  tasks :: "task list"
  running :: "task list"

definition kill :: "queue \<Rightarrow> queue" where
  "kill q = q\<lparr>tasks := []\<rparr>"

record feature_service =
  url :: string
  options :: options
  layer :: scalar
  timeOut :: nat
  pageQueue :: queue

text \<open>
  The constructor. \<open>None\<close> is the \<open>TypeError\<close> of \<open>this.url.split('//')[1].match\<close> when the
  URL has no \<open>//\<close>. \<open>substring\<close> clamps a negative end to 0, as the subtraction on \<open>nat\<close> does.
\<close>

definition FeatureService :: "string \<Rightarrow> options option \<Rightarrow> feature_service option" where
  "FeatureService url0 options0 =
     (let end = last (split ''/'' url0);
          found = (case parseInt end of None \<Rightarrow> False | Some n \<Rightarrow> 0 \<le> n);
          layer0 = (if found then Str end else Undefined);
          len = length end;
          url1 = (if found
                  then take (length url0 - ((if len = 0 then 2 else len) + 1)) url0
                  else url0);
          opts = (case options0 of
                    None \<Rightarrow> \<lparr>layer_option = Undefined, objectIdField = None\<rparr>
                  | Some opts \<Rightarrow> opts);
          parts = split ''//'' url1
      in if length parts < 2 then None
         else Some \<lparr>url = url1,
                    options = opts,
                    layer = or_else (or_else layer0 (layer_option opts)) (Num 0),
                    timeOut = 90000,
                    pageQueue = \<lparr>concurrency = (if prefix ''service'' (parts ! 1) then 16 else 4),
                                 tasks = [], running = []\<rparr>\<rparr>)"

section \<open>Range pages\<close>

record stats =
  smin :: "int option"
  smax :: "int option"

text \<open>
  The variable \<open>pages\<close> of \<open>_rangePages\<close>:
  \<open>Math.max((stats.max === size) ? stats.max : Math.ceil((stats.max - stats.min) / size), 1)\<close>.
  A missing bound makes the difference \<open>NaN\<close>.
\<close>

definition rangePages_pages :: "stats \<Rightarrow> int \<Rightarrow> jsnum" where
  "rangePages_pages st sz =
     js_max1
       (case smax st of
          None \<Rightarrow> NaN
        | Some mx \<Rightarrow>
            if mx = sz then Fin (of_int mx)
            else (case smin st of
                    None \<Rightarrow> NaN
                  | Some mn \<Rightarrow> js_ceil (js_div (mx - mn) sz)))"

text \<open>\<open>stats.min + k\<close> inside the where clause.\<close>

definition min_plus :: "stats \<Rightarrow> int \<Rightarrow> string" where
  "min_plus st k = (case smin st of None \<Rightarrow> ''NaN'' | Some mn \<Rightarrow> show_int (mn + k))"

definition opt_text :: "int option \<Rightarrow> string" where
  "opt_text v = (case v of None \<Rightarrow> ''undefined'' | Some n \<Rightarrow> show_int n)"

definition str_text :: "string option \<Rightarrow> string" where
  "str_text v = (case v of None \<Rightarrow> ''undefined'' | Some s \<Rightarrow> s)"

text \<open>The URL of a range page from the texts of its two bounds.\<close>

definition rangePageUrl :: "feature_service \<Rightarrow> string \<Rightarrow> string \<Rightarrow> string" where
  "rangePageUrl fs pageMax pageMin =
     (let objId = str_text (objectIdField (options fs));
          where = objId @ ''<='' @ pageMax @ ''+AND+'' @ objId @ ''>='' @ pageMin
      in url fs @ ''/'' @ to_text (or_else (layer_option (options fs)) (Num 0))
           @ ''/query?outSR=4326&where='' @ where @ ''&f=json&outFields=*''
           @ ''&geometry=&returnGeometry=true&geometryPrecision='')"

text \<open>The body of the loop for page \<open>i\<close>.\<close>

definition rangePage :: "feature_service \<Rightarrow> stats \<Rightarrow> int \<Rightarrow> jsnum \<Rightarrow> nat \<Rightarrow> task" where
  "rangePage fs st sz pages i =
     (let pageMax = (if js_eq i (js_pred pages) then opt_text (smax st)
                     else min_plus st (sz * (int i + 1) - 1));
          pageMin = min_plus st (sz * int i)
      in new_task (rangePageUrl fs pageMax pageMin))"

text \<open>The loop \<open>for (var i = 0; i < pages; i++)\<close>; it does not end when \<open>pages\<close> is \<open>Infinity\<close>.\<close>

partial_function (option)
  rangePages_loop :: "feature_service \<Rightarrow> stats \<Rightarrow> int \<Rightarrow> jsnum \<Rightarrow> nat \<Rightarrow> task list \<Rightarrow> task list option"
where
  "rangePages_loop fs st sz pages i reqs =
     (if js_lt i pages
      then rangePages_loop fs st sz pages (i + 1) (reqs @ [rangePage fs st sz pages i])
      else Some reqs)"

declare rangePages_loop.simps [code]

definition rangePages :: "feature_service \<Rightarrow> stats \<Rightarrow> int \<Rightarrow> task list option" where
  "rangePages fs st sz = rangePages_loop fs st sz (rangePages_pages st sz) 0 []"


section \<open>Offset pages\<close>

definition offsetPageUrl :: "feature_service \<Rightarrow> int \<Rightarrow> int \<Rightarrow> string" where
  "offsetPageUrl fs resultOffset mx =
     url fs @ ''/'' @ to_text (or_else (layer_option (options fs)) (Num 0))
       @ ''/query?outSR=4326&f=json&outFields=*&where=1=1''
       @ ''&resultOffset='' @ show_int resultOffset
       @ ''&resultRecordCount='' @ show_int mx
       @ ''&geometry=&returnGeometry=true&geometryPrecision=''"

partial_function (option)
  offsetPages_loop :: "feature_service \<Rightarrow> jsnum \<Rightarrow> int \<Rightarrow> nat \<Rightarrow> task list \<Rightarrow> task list option"
where
  "offsetPages_loop fs pages mx i reqs =
     (if js_lt i pages
      then offsetPages_loop fs pages mx (i + 1)
             (reqs @ [new_task (offsetPageUrl fs (int i * mx) mx)])
      else Some reqs)"

declare offsetPages_loop.simps [code]

definition offsetPages :: "feature_service \<Rightarrow> jsnum \<Rightarrow> int \<Rightarrow> task list option" where
  "offsetPages fs pages mx = offsetPages_loop fs pages mx 0 []"

section \<open>Id pages\<close>

text \<open>
  The where clause of an id page,
  \<open>[oidField, ' > ', pageMin, ' AND ', 'oidField', '<=', pageMax].join('')\<close>:
  the second field name is the string literal \<open>'oidField'\<close>, not the variable.
\<close>

definition idWhere :: "string \<Rightarrow> int \<Rightarrow> int \<Rightarrow> string" where
  "idWhere oidField pageMin pageMax =
     oidField @ '' > '' @ show_int pageMin @ '' AND '' @ ''oidField'' @ ''<='' @ show_int pageMax"

definition idPageUrl :: "feature_service \<Rightarrow> string \<Rightarrow> string" where
  "idPageUrl fs where =
     url fs @ ''/'' @ to_text (or_else (layer_option (options fs)) (Num 0))
       @ ''/query?outSR=4326&where='' @ where @ ''&f=json&outFields=*''
       @ ''&geometry=&returnGeometry=true&geometryPrecision=10''"

text \<open>The body of the loop for a non-empty chunk \<open>pageIds\<close>.\<close>

definition idPage :: "feature_service \<Rightarrow> string \<Rightarrow> int list \<Rightarrow> task" where
  "idPage fs oidField pageIds =
     (let pageMin0 = hd pageIds;
          pageMin = (if pageMin0 = 0 then pageMin0 else pageMin0 - 1);
          pageMax = last pageIds
      in new_task (idPageUrl fs (idWhere oidField pageMin pageMax)))"

text \<open>
  The loop \<open>for (var i = 0; i < pages + 1; i++)\<close> with \<open>ids.splice(0, size)\<close>, which takes
  \<open>size\<close> ids off the front (none when \<open>size\<close> is not positive).
\<close>

partial_function (option)
  idPages_loop ::
    "feature_service \<Rightarrow> string \<Rightarrow> jsnum \<Rightarrow> int \<Rightarrow> nat \<Rightarrow> int list \<Rightarrow> task list \<Rightarrow> task list option"
where
  "idPages_loop fs oidField pages sz i ids reqs =
     (if js_lt i (js_succ pages)
      then (let pageIds = take (nat sz) ids;
                ids' = drop (nat sz) ids
            in idPages_loop fs oidField pages sz (i + 1) ids'
                 (if pageIds \<noteq> [] then reqs @ [idPage fs oidField pageIds] else reqs))
      else Some reqs)"

declare idPages_loop.simps [code]

definition idPages :: "feature_service \<Rightarrow> int list \<Rightarrow> int \<Rightarrow> task list option" where
  "idPages fs ids sz =
     (let oidField = (case objectIdField (options fs) of
                        None \<Rightarrow> ''objectId''
                      | Some f \<Rightarrow> if f = [] then ''objectId'' else f);
          pages = js_div (int (length ids)) sz
      in idPages_loop fs oidField pages sz 0 ids [])"


section \<open>JSON documents and normalized errors\<close>

text \<open>
  The values that the source handles: the JSON values, and the \<open>Error\<close> objects of the
  platform that the error events of a request carry. An \<open>Error\<close> object has the property
  \<open>message\<close>, which is not enumerable, and its enumerable own properties (\<open>code\<close>, \<open>errno\<close>
  and so on); \<open>JSON.parse\<close> never returns one.
\<close>

datatype json =
    JNull
  | JBool bool
  | JNum rat
  | JStr string
  | JArr "json list"
  | JObj "(string \<times> json) list"
  | JError json "(string \<times> json) list"

text \<open>Truthiness of a value that may be \<open>undefined\<close> (\<open>None\<close>).\<close>

fun is_truthy :: "json option \<Rightarrow> bool" where
  "is_truthy None = False"
| "is_truthy (Some JNull) = False"
| "is_truthy (Some (JBool b)) = b"
| "is_truthy (Some (JNum q)) = (q \<noteq> 0)"
| "is_truthy (Some (JStr s)) = (s \<noteq> [])"
| "is_truthy (Some (JArr xs)) = True"
| "is_truthy (Some (JObj kvs)) = True"
| "is_truthy (Some (JError m kvs)) = True"

text \<open>
  \<open>v.key\<close> on a value that is neither \<open>null\<close> nor \<open>undefined\<close>, for the keys the source
  reads (\<open>error\<close>, \<open>type\<close>, \<open>code\<close>, \<open>message\<close>): only an object can hold them.
\<close>

fun get_prop :: "string \<Rightarrow> json \<Rightarrow> json option" where
  "get_prop key (JObj kvs) = map_of kvs key"
| "get_prop key (JError m kvs) = (if key = ''message'' then Some m else map_of kvs key)"
| "get_prop key v = None"

text \<open>\<open>obj.key = v\<close>: an existing key keeps its place, a new one goes last.\<close>

fun set_prop :: "string \<Rightarrow> json \<Rightarrow> (string \<times> json) list \<Rightarrow> (string \<times> json) list" where
  "set_prop key v [] = [(key, v)]"
| "set_prop key v (kv # kvs) =
     (if fst kv = key then (key, v) # kvs else kv # set_prop key v kvs)"

text \<open>
  \<open>v.key = x\<close>. On an \<open>Error\<close> object the write to \<open>message\<close> changes the value and leaves
  the property not enumerable. On a value that is not an object the write leaves no trace
  in the value (the module is not in strict mode).
\<close>

fun set_field :: "string \<Rightarrow> json \<Rightarrow> json \<Rightarrow> json" where
  "set_field key x (JObj kvs) = JObj (set_prop key x kvs)"
| "set_field key x (JError m kvs) =
     (if key = ''message'' then JError x kvs else JError m (set_prop key x kvs))"
| "set_field key x v = v"

text \<open>\<open>_buildError(url, message, error)\<close>. A falsy \<open>error\<close> is replaced by \<open>{}\<close>.\<close>

definition buildError :: "string \<Rightarrow> string \<Rightarrow> json option \<Rightarrow> json" where
  "buildError request_url message error =
     (let e0 = (case (if is_truthy error then error else None) of
                  None \<Rightarrow> JObj []
                | Some v \<Rightarrow> v);
          e1 = set_field ''message'' (JStr message) e0;
          e2 = set_field ''request'' (JStr request_url) e1;
          e3 = (case get_prop ''message'' e2 of
                  Some m \<Rightarrow> set_field ''response'' m e2
                | None \<Rightarrow> e2);
          e4 = set_field ''type''
                 (if is_truthy (get_prop ''type'' e3) then the (get_prop ''type'' e3)
                  else JStr ''Unknown failure'') e3;
          e5 = set_field ''code''
                 (if is_truthy (get_prop ''code'' e4) then the (get_prop ''code'' e4)
                  else JNum 500) e4
      in e5)"


section \<open>Retry and abort\<close>

text \<open>
  The string \<open>JSON.stringify(error)\<close>, kept symbolic: the text of \<open>enumerable error\<close>.
\<close>

datatype serialized = JSON_stringify json

text \<open>\<open>_abortPaging\<close>: kill the queue, then call back with the serialized error.\<close>

definition abortPaging :: "feature_service \<Rightarrow> json \<Rightarrow> feature_service \<times> serialized" where
  "abortPaging fs error = (fs\<lparr>pageQueue := kill (pageQueue fs)\<rparr>, JSON_stringify error)"

text \<open>
  What \<open>_catchErrors\<close> does with a failed task: abort, or set a timer that requests the
  task again (the task with its new counter, the delay in milliseconds).
\<close>

datatype reaction =
    Aborted feature_service serialized
  | Rescheduled task int

definition catchErrors :: "feature_service \<Rightarrow> task \<Rightarrow> json option \<Rightarrow> string \<Rightarrow> reaction" where
  "catchErrors fs t e uri =
     (let error = buildError uri ''Request for a page of features failed'' e
      in if retry t = Some 3
         then (case abortPaging fs error of (fs', payload) \<Rightarrow> Aborted fs' payload)
         else (let r = (case retry t of
                          None \<Rightarrow> 1
                        | Some r0 \<Rightarrow> if r0 = 0 then 1 else r0 + 1);
                   t' = t\<lparr>retry := Some r\<rparr>
               in Rescheduled t' (r * 1000)))"

section \<open>Decoding a response\<close>

text \<open>
  The primitives of the platform: \<open>zlib.gunzipSync\<close>, \<open>zlib.inflateSync\<close> and \<open>JSON.parse\<close>
  (\<open>None\<close> when they throw), and \<open>encodeURI(decodeURI(s))\<close>.
\<close>

record runtime =
  gunzipSync :: "string \<Rightarrow> string option"
  inflateSync :: "string \<Rightarrow> string option"
  JSON_parse :: "string \<Rightarrow> json option"
  encodeURI_decodeURI :: "string \<Rightarrow> string"

text \<open>\<open>s.replace(/NaN/g, 'null')\<close>: every occurrence, from left to right.\<close>

function replace_NaN :: "string \<Rightarrow> string" where
  "replace_NaN [] = []"
| "replace_NaN (c # cs) =
     (if prefix ''NaN'' (c # cs) then ''null'' @ replace_NaN (drop 3 (c # cs))
      else c # replace_NaN cs)"
  by pat_completeness auto
termination
  by (relation "measure length") auto

text \<open>One call of the callback of \<open>_decode\<close>: \<open>callback(err)\<close> or \<open>callback(null, json)\<close>.\<close>

datatype decoded = Failure json | Success json

text \<open>How a function ends: it returns, or a \<open>TypeError\<close> leaves it uncaught.\<close>

datatype completion = Returned | Thrown

definition parse_body :: "runtime \<Rightarrow> string option \<Rightarrow> string \<Rightarrow> json option" where
  "parse_body rt encoding buffer =
     (if encoding = Some ''gzip''
      then (case gunzipSync rt buffer of
              None \<Rightarrow> None
            | Some text \<Rightarrow> JSON_parse rt (replace_NaN text))
      else if encoding = Some ''deflate''
      then (case inflateSync rt buffer of
              None \<Rightarrow> None
            | Some text \<Rightarrow> JSON_parse rt text)
      else JSON_parse rt (replace_NaN buffer))"

text \<open>
  \<open>_decode(res, data, callback)\<close>: the calls of the callback, in order, and how the function
  ends. The \<open>catch\<close> block calls back and does not return, so the test of \<open>json.error\<close> that
  follows runs with \<open>json\<close> still \<open>undefined\<close>.
\<close>

definition decode :: "runtime \<Rightarrow> string option \<Rightarrow> string list \<Rightarrow> decoded list \<times> completion" where
  "decode rt encoding data =
     (if data = []
      then ([Failure (JObj [(''type'', JStr ''Response from the server was empty'')])], Returned)
      else (let parsed = parse_body rt encoding (concat data);
                calls = (case parsed of
                           None \<Rightarrow> [Failure (JObj [(''type'', JStr ''Failed to parse feature response'')])]
                         | Some j \<Rightarrow> [])
            in case parsed of
                 None \<Rightarrow> (calls, Thrown)
               | Some JNull \<Rightarrow> (calls, Thrown)
               | Some j \<Rightarrow>
                   if is_truthy (get_prop ''error'' j)
                   then (calls @ [Failure (the (get_prop ''error'' j))], Returned)
                   else (calls @ [Success j], Returned)))"


section \<open>Requesting a page\<close>

text \<open>
  What comes back from one HTTP exchange of \<open>_requestFeatures\<close>: an error event of the
  request or of the response (with the \<open>Error\<close> object of the platform), the timeout, an
  exception while the request is set up, or a complete response (its \<open>content-encoding\<close>
  header and its chunks). Every request has one outcome here: on a timeout the source
  ends the request and does not abort it, so the same request may fire a second event
  later; that second event, and the retries that would then run side by side, are not
  represented.
\<close>

datatype exchange =
    RequestError json
  | ResponseError json
  | TimedOut
  | SetupFailed
  | Response "string option" "string list"

datatype event =
    Fetch string
  | Timer int
  | Queue_killed
  | Callback_failure serialized
  | Callback_page json
  | Uncaught_TypeError

text \<open>The events of a reaction of \<open>_catchErrors\<close>, and the task to request again, if any.\<close>

fun react :: "reaction \<Rightarrow> event list \<times> task option" where
  "react (Aborted fs' payload) = ([Queue_killed, Callback_failure payload], None)"
| "react (Rescheduled t' delay) = ([Timer delay], Some t')"

text \<open>The callback that \<open>_requestFeatures\<close> hands to \<open>_decode\<close>.\<close>

fun on_decoded :: "feature_service \<Rightarrow> task \<Rightarrow> string \<Rightarrow> decoded \<Rightarrow> event list \<times> task option" where
  "on_decoded fs t uri (Failure err) = react (catchErrors fs t (Some err) uri)"
| "on_decoded fs t uri (Success j) = ([Callback_page j], None)"

text \<open>One attempt: its events, the task to request again, and how the handler ends.\<close>

definition attempt ::
  "runtime \<Rightarrow> feature_service \<Rightarrow> task \<Rightarrow> string \<Rightarrow> exchange \<Rightarrow> (event list \<times> task option) \<times> completion"
where
  "attempt rt fs t uri x =
     (case x of
        RequestError err \<Rightarrow> (react (catchErrors fs t (Some err) uri), Returned)
      | ResponseError err \<Rightarrow> (react (catchErrors fs t (Some err) uri), Returned)
      | TimedOut \<Rightarrow>
          (react (catchErrors fs t
             (Some (JObj [(''type'', JStr (''The request timed out after ''
                              @ show_nat (timeOut fs div 1000) @ '' seconds.''))])) uri),
           Returned)
      | SetupFailed \<Rightarrow>
          (react (catchErrors fs t (Some (JObj [(''type'', JStr ''Unknown failure'')])) uri),
           Returned)
      | Response encoding data \<Rightarrow>
          (case decode rt encoding data of
             (calls, fin) \<Rightarrow>
               ((case calls of [] \<Rightarrow> ([], None) | c # _ \<Rightarrow> on_decoded fs t uri c), fin)))"

text \<open>
  \<open>_requestFeatures(task, cb)\<close> against the exchanges that the server will answer with, one
  per request: the trace of what happens. A timer set by \<open>_catchErrors\<close> requests the task
  again; an uncaught \<open>TypeError\<close> ends the process before the timer runs. When the
  exchanges run out, the last request stays unanswered.
\<close>

fun requestFeatures :: "runtime \<Rightarrow> feature_service \<Rightarrow> task \<Rightarrow> exchange list \<Rightarrow> event list" where
  "requestFeatures rt fs t [] = [Fetch (encodeURI_decodeURI rt (req t))]"
| "requestFeatures rt fs t (x # xs) =
     (let uri = encodeURI_decodeURI rt (req t)
      in case attempt rt fs t uri x of
           ((events, again), fin) \<Rightarrow>
             Fetch uri # events @
               (if fin = Thrown then [Uncaught_TypeError]
                else (case again of
                        None \<Rightarrow> []
                      | Some t' \<Rightarrow> requestFeatures rt fs t' xs)))"

declare requestFeatures.simps [simp del]

section \<open>Layer metadata\<close>

text \<open>
  What \<open>request(url, callback)\<close> calls back with: an error, the body \<open>null\<close>, or a document.
  A document is kept as the JSON value received together with the typed reading of the
  fields that the source uses.
\<close>

datatype 'a reply = Failed json | Empty | Doc json 'a

record field =
  name :: string
  type :: string

record capabilities =
  supportsPagination :: bool

record layer_doc =
  layer_fields :: "field list option"
  maxRecordCount :: scalar
  currentVersion :: "rat option"
  supportsStatistics :: bool
  advancedQueryCapabilities :: "capabilities option"
  doc_url :: "string option"

record stats_doc =
  features :: "(string \<times> int) list list"
  fieldAliases :: "(string \<times> string) list option"

text \<open>The replies of the server to the four metadata requests.\<close>

record server =
  layer_reply :: "layer_doc reply"
  count_reply :: "int option reply"
  stats_reply :: "stats_doc reply"
  ids_reply :: "int list option reply"

text \<open>An error handed to a callback: \<open>new Error(message)\<close> or a normalized error object.\<close>

datatype failure = Error string | Normalized json

text \<open>
  How an operation with a callback ends: \<open>callback(null, value)\<close>, \<open>callback(err)\<close>, an
  uncaught \<open>TypeError\<close>, or a loop that never ends.
\<close>

datatype 'a outcome = Ok 'a | Err failure | TypeError | Endless

definition layerInfo :: "feature_service \<Rightarrow> server \<Rightarrow> layer_doc outcome" where
  "layerInfo fs srv =
     (let u = url fs @ ''/'' @ to_text (layer fs) @ ''?f=json'';
          message = ''Request for layer information failed''
      in case layer_reply srv of
           Failed err \<Rightarrow> Err (Normalized (buildError u message None))
         | Empty \<Rightarrow> Err (Normalized (buildError u message (Some JNull)))
         | Doc raw d \<Rightarrow>
             if is_truthy (get_prop ''error'' raw)
             then Err (Normalized (buildError u message (Some raw)))
             else Ok (d\<lparr>doc_url := Some u\<rparr>))"

text \<open>\<open>getObjectIdField\<close>: the name of the last field of type \<open>esriFieldTypeOID\<close>.\<close>

definition getObjectIdField :: "layer_doc \<Rightarrow> string option outcome" where
  "getObjectIdField info =
     (case layer_fields info of
        None \<Rightarrow> TypeError
      | Some fs \<Rightarrow>
          Ok (foldl (\<lambda>oid f. if type f = ''esriFieldTypeOID'' then Some (name f) else oid)
                None fs))"

definition featureCount :: "feature_service \<Rightarrow> server \<Rightarrow> int option outcome" where
  "featureCount fs srv =
     (let countUrl = url fs @ ''/'' @ to_text (or_else (layer fs) (Num 0))
                       @ ''/query?where=1=1&returnCountOnly=true&f=json'';
          message = ''Request for feature count failed''
      in case count_reply srv of
           Failed err \<Rightarrow> Err (Normalized (buildError countUrl message None))
         | Empty \<Rightarrow> TypeError
         | Doc raw c \<Rightarrow>
             if is_truthy (get_prop ''error'' raw)
             then Err (Normalized (buildError countUrl message (Some raw)))
             else Ok c)"

definition layerIds :: "feature_service \<Rightarrow> server \<Rightarrow> int list outcome" where
  "layerIds fs srv =
     (let r = url fs @ ''/'' @ to_text (layer fs)
                @ ''/query?where=1=1&returnIdsOnly=true&f=json'';
          message = ''Request for object ids failed''
      in case ids_reply srv of
           Failed err \<Rightarrow> Err (Normalized (buildError r message None))
         | Empty \<Rightarrow> TypeError
         | Doc raw objectIds \<Rightarrow>
             (case objectIds of
                None \<Rightarrow> Err (Normalized (buildError r message (Some raw)))
              | Some ids \<Rightarrow> Ok (sort ids)))"

record metadata =
  meta_layer :: layer_doc
  oid :: "string option"
  meta_size :: scalar
  meta_count :: "int option"

text \<open>
  \<open>metadata(callback)\<close>. \<open>new Error(err)\<close> on the error object of \<open>layerInfo\<close> has the
  message \<open>[object Object]\<close>. \<open>json.count < 1\<close> is false when the count is missing.
\<close>

definition metadata :: "feature_service \<Rightarrow> server \<Rightarrow> metadata outcome" where
  "metadata fs srv =
     (case layerInfo fs srv of
        Err err \<Rightarrow> Err (Error ''[object Object]'')
      | TypeError \<Rightarrow> TypeError
      | Endless \<Rightarrow> Endless
      | Ok lyr \<Rightarrow>
          (case getObjectIdField lyr of
             Err err \<Rightarrow> Err err
           | TypeError \<Rightarrow> TypeError
           | Endless \<Rightarrow> Endless
           | Ok oid0 \<Rightarrow>
               (let m = \<lparr>meta_layer = lyr, oid = oid0, meta_size = maxRecordCount lyr,
                         meta_count = None\<rparr>
                in if \<not> (case currentVersion lyr of None \<Rightarrow> False | Some v \<Rightarrow> v \<noteq> 0)
                   then Ok m
                   else (case featureCount fs srv of
                           Err err \<Rightarrow> Err err
                         | TypeError \<Rightarrow> TypeError
                         | Endless \<Rightarrow> Endless
                         | Ok c \<Rightarrow>
                             if (case c of None \<Rightarrow> False | Some n \<Rightarrow> n < 1)
                             then Err (Error ''Service returned count of 0'')
                             else Ok (m\<lparr>meta_count := c\<rparr>)))))"

section \<open>Planning the pages\<close>

text \<open>\<open>parseInt(size, 10)\<close> on \<open>maxRecordCount\<close>; \<open>None\<close> is \<open>NaN\<close>.\<close>

fun parseInt_scalar :: "scalar \<Rightarrow> int option" where
  "parseInt_scalar Undefined = None"
| "parseInt_scalar (Num n) = Some n"
| "parseInt_scalar (Str s) = parseInt s"

text \<open>\<open>Math.min(parseInt(size, 10), 1000) || 1000\<close>.\<close>

definition pageSize :: "scalar \<Rightarrow> int" where
  "pageSize s =
     (case parseInt_scalar s of
        None \<Rightarrow> 1000
      | Some n \<Rightarrow> if min n 1000 = 0 then 1000 else min n 1000)"

text \<open>\<open>a || b || c\<close> on the attributes of the statistics: \<open>None\<close> is the \<open>TypeError\<close> of \<open>names[k]\<close> on \<open>null\<close>.\<close>

definition pick ::
  "(string \<times> int) list \<Rightarrow> string list option \<Rightarrow> nat \<Rightarrow> string \<Rightarrow> string \<Rightarrow> int option option"
where
  "pick attrs names k lower upper =
     (let nonzero = (\<lambda>v. case v of None \<Rightarrow> False | Some (n::int) \<Rightarrow> n \<noteq> 0)
      in if nonzero (map_of attrs lower) then Some (map_of attrs lower)
         else if nonzero (map_of attrs upper) then Some (map_of attrs upper)
         else (case names of
                 None \<Rightarrow> None
               | Some ns \<Rightarrow> Some (map_of attrs (if k < length ns then ns ! k else ''undefined''))))"

definition getIdRangeFromStats :: "feature_service \<Rightarrow> server \<Rightarrow> metadata \<Rightarrow> stats outcome" where
  "getIdRangeFromStats fs srv m =
     (case stats_reply srv of
        Failed err \<Rightarrow> Err (Error ''statistics request failed'')
      | Empty \<Rightarrow> TypeError
      | Doc raw st \<Rightarrow>
          if is_truthy (get_prop ''error'' raw) then Err (Error ''statistics request failed'')
          else (case features st of
                  [] \<Rightarrow> TypeError
                | attrs # _ \<Rightarrow>
                    (let names = map_option (map fst) (fieldAliases st)
                     in case pick attrs names 0 ''min'' ''MIN'' of
                          None \<Rightarrow> TypeError
                        | Some mn \<Rightarrow>
                            (case pick attrs names 1 ''max'' ''MAX'' of
                               None \<Rightarrow> TypeError
                             | Some mx \<Rightarrow> Ok \<lparr>smin = mn, smax = mx\<rparr>))))"

definition built :: "task list option \<Rightarrow> task list outcome" where
  "built r = (case r of None \<Rightarrow> Endless | Some reqs \<Rightarrow> Ok reqs)"

definition idPages_from :: "feature_service \<Rightarrow> server \<Rightarrow> int \<Rightarrow> task list outcome" where
  "idPages_from fs srv sz =
     (case layerIds fs srv of
        Err err \<Rightarrow> Err err
      | TypeError \<Rightarrow> TypeError
      | Endless \<Rightarrow> Endless
      | Ok ids \<Rightarrow> built (idPages fs ids sz))"

text \<open>
  \<open>pages(callback)\<close>: the service with \<open>options.objectIdField\<close> set from the metadata, and
  what the callback receives.
\<close>

definition pages :: "feature_service \<Rightarrow> server \<Rightarrow> feature_service \<times> task list outcome" where
  "pages fs srv =
     (case metadata fs srv of
        Err err \<Rightarrow> (fs, Err err)
      | TypeError \<Rightarrow> (fs, TypeError)
      | Endless \<Rightarrow> (fs, Endless)
      | Ok m \<Rightarrow>
          (let lyr = meta_layer m;
               fs' = fs\<lparr>options := (options fs)\<lparr>objectIdField := oid m\<rparr>\<rparr>;
               sz = pageSize (meta_size m);
               nPages = (case meta_count m of
                           None \<Rightarrow> NaN
                         | Some c \<Rightarrow> js_ceil (js_div c sz));
               canPage = (case advancedQueryCapabilities lyr of
                            None \<Rightarrow> False
                          | Some c \<Rightarrow> supportsPagination c)
           in if canPage then (fs', built (offsetPages fs' nPages sz))
              else if supportsStatistics lyr
              then (case getIdRangeFromStats fs' srv m of
                      Ok st \<Rightarrow> (fs', built (rangePages fs' st sz))
                    | TypeError \<Rightarrow> (fs', TypeError)
                    | Endless \<Rightarrow> (fs', Endless)
                    | Err err \<Rightarrow> (fs', idPages_from fs' srv sz))
              else (fs', idPages_from fs' srv sz)))"


section \<open>Definitions used to state the properties\<close>

text \<open>
  The number of range pages in the words of the specification:
  \<open>max(ceil((max - min) / size), 1)\<close>, except that it is \<open>max\<close> when \<open>max\<close> equals \<open>size\<close>.
\<close>

definition range_page_count :: "int \<Rightarrow> int \<Rightarrow> int \<Rightarrow> int" where
  "range_page_count mn mx sz =
     (if mx = sz then mx else max \<lceil>real_of_int (mx - mn) / real_of_int sz\<rceil> 1)"

text \<open>A service on layer 2 (set in the options) whose object id field is known.\<close>

definition demo_service :: feature_service where
  "demo_service =
     \<lparr>url = ''http://host/FeatureServer'',
      options = \<lparr>layer_option = Num 2, objectIdField = Some ''OBJECTID''\<rparr>,
      layer = Num 2,
      timeOut = 90000,
      pageQueue = \<lparr>concurrency = 4, tasks = [], running = []\<rparr>\<rparr>"

text \<open>
  The where clause of an id page in the words of the specification:
  \<open>objectIdField > pageMin AND objectIdField <= pageMax\<close>, the configured field on both sides.
\<close>

definition idWhere_spec :: "string \<Rightarrow> int \<Rightarrow> int \<Rightarrow> string" where
  "idWhere_spec oidField pageMin pageMax =
     oidField @ '' > '' @ show_int pageMin @ '' AND '' @ oidField @ ''<='' @ show_int pageMax"

text \<open>
  The service that the constructor builds from a URL ending in layer 3, with options that
  name the object id field and no layer.
\<close>

definition layer3_service :: feature_service where
  "layer3_service =
     \<lparr>url = ''http://host/FeatureServer'',
      options = \<lparr>layer_option = Undefined, objectIdField = Some ''OBJECTID''\<rparr>,
      layer = Str ''3'',
      timeOut = 90000,
      pageQueue = \<lparr>concurrency = 4, tasks = [], running = []\<rparr>\<rparr>"

text \<open>
  A stand-in for the platform on the texts of the examples: \<open>JSON.parse\<close> reads three
  documents and rejects every other text (a bare \<open>NaN\<close> among them), the two
  decompressors strip a tag from the body.
\<close>

definition demo_parse :: "string \<Rightarrow> json option" where
  "demo_parse s =
     (if s = ''{\"a\":null}'' then Some (JObj [(''a'', JNull)])
      else if s = ''{\"features\":[]}'' then Some (JObj [(''features'', JArr [])])
      else if s = ''{\"error\":{\"code\":400,\"message\":\"bad\"}}''
      then Some (JObj [(''error'', JObj [(''code'', JNum 400), (''message'', JStr ''bad'')])])
      else None)"

definition demo_runtime :: runtime where
  "demo_runtime =
     \<lparr>gunzipSync = (\<lambda>b. if prefix ''gz:'' b then Some (drop 3 b) else None),
      inflateSync = (\<lambda>b. if prefix ''zz:'' b then Some (drop 3 b) else None),
      JSON_parse = demo_parse,
      encodeURI_decodeURI = (\<lambda>s. s)\<rparr>"

text \<open>The number of requests sent in a trace.\<close>

fun is_fetch :: "event \<Rightarrow> bool" where
  "is_fetch (Fetch u) = True"
| "is_fetch e = False"

definition fetches :: "event list \<Rightarrow> nat" where
  "fetches evs = length (filter is_fetch evs)"

text \<open>
  A layer document of a server at version 10.3 with native pagination, and the replies of
  that server when the layer holds \<open>c\<close> features.
\<close>

definition demo_layer :: layer_doc where
  "demo_layer =
     \<lparr>layer_fields = Some [\<lparr>name = ''OBJECTID'', type = ''esriFieldTypeOID''\<rparr>,
                           \<lparr>name = ''NAME'', type = ''esriFieldTypeString''\<rparr>],
      maxRecordCount = Num 2000,
      currentVersion = Some (103 / 10),
      supportsStatistics = True,
      advancedQueryCapabilities = Some \<lparr>supportsPagination = True\<rparr>,
      doc_url = None\<rparr>"

definition demo_server :: "layer_doc \<Rightarrow> int \<Rightarrow> server" where
  "demo_server lyr c =
     \<lparr>layer_reply = Doc (JObj [(''maxRecordCount'', JNum 2000)]) lyr,
      count_reply = Doc (JObj [(''count'', JNum (of_int c))]) (Some c),
      stats_reply = Failed (JObj [(''code'', JStr ''ECONNRESET'')]),
      ids_reply = Failed (JObj [(''code'', JStr ''ECONNRESET'')])\<rparr>"

text \<open>
  The requests a task may still cause, by its retry counter: four for a new task, one
  when the counter is 3.
\<close>

definition budget :: "task \<Rightarrow> nat" where
  "budget t = (case retry t of None \<Rightarrow> 4 | Some r \<Rightarrow> nat (4 - r))"

text \<open>
  Chunking in the words of the specification: repeatedly take the next \<open>n\<close> elements from
  the front, as long as some are left.
\<close>

function chunks :: "nat \<Rightarrow> 'a list \<Rightarrow> 'a list list" where
  "chunks n xs = (if n = 0 \<or> xs = [] then [] else take n xs # chunks n (drop n xs))"
  by pat_completeness auto
termination
  by (relation "measure (\<lambda>(n, xs). length xs)") auto

declare chunks.simps [simp del]

text \<open>The field name of \<open>_idPages\<close>: \<open>this.options.objectIdField || 'objectId'\<close>.\<close>

definition oidField_of :: "feature_service \<Rightarrow> string" where
  "oidField_of fs = (case objectIdField (options fs) of
                        None \<Rightarrow> ''objectId''
                      | Some f \<Rightarrow> if f = [] then ''objectId'' else f)"

text \<open>The start of every page request: the service URL and the layer of the options.\<close>

definition page_base :: "feature_service \<Rightarrow> string" where
  "page_base fs = url fs @ ''/'' @ to_text (or_else (layer_option (options fs)) (Num 0))"






section \<open>Range pages: count and bounds\<close>

lemma rangePages_loop_Fin:
  "i \<le> n \<Longrightarrow> rangePages_loop fs st sz (Fin (of_nat n)) i reqs =
     Some (reqs @ map (rangePage fs st sz (Fin (of_nat n))) [i..<n])"
proof (induction "n - i" arbitrary: i reqs)
  case 0
  then show ?case by (subst rangePages_loop.simps) simp
next
  case (Suc k)
  then have lt: "i < n" and k: "k = n - (i + 1)" and le: "i + 1 \<le> n" by auto
  have "rangePages_loop fs st sz (Fin (of_nat n)) i reqs =
        rangePages_loop fs st sz (Fin (of_nat n)) (i + 1)
          (reqs @ [rangePage fs st sz (Fin (of_nat n)) i])"
    by (subst rangePages_loop.simps) (simp add: lt)
  also have "\<dots> = Some ((reqs @ [rangePage fs st sz (Fin (of_nat n)) i])
                       @ map (rangePage fs st sz (Fin (of_nat n))) [i + 1..<n])"
    by (rule Suc.hyps(1)[OF k le])
  also have "\<dots> = Some (reqs @ map (rangePage fs st sz (Fin (of_nat n))) [i..<n])"
    using lt by (simp add: upt_conv_Cons)
  finally show ?case .
qed

lemma rangePages_pages_pos:
  assumes "0 < sz"
  shows "rangePages_pages \<lparr>smin = Some mn, smax = Some mx\<rparr> sz =
           Fin (of_nat (nat (range_page_count mn mx sz)))"
proof (cases "mx = sz")
  case True
  with assms show ?thesis
    by (simp add: rangePages_pages_def range_page_count_def max_def)
next
  case False
  let ?c = "- (- (mx - mn) div sz)"
  have "rangePages_pages \<lparr>smin = Some mn, smax = Some mx\<rparr> sz = Fin (max (of_int ?c) 1)"
  proof -
    have "\<lceil>rat_of_int (mx - mn) / rat_of_int sz\<rceil> = ?c"
      by (rule ceiling_divide_eq_div)
    then show ?thesis
      using assms False by (simp add: rangePages_pages_def js_div_def del: of_int_diff)
  qed
  also have "max (rat_of_int ?c) 1 = of_int (max ?c 1)"
    by (simp add: max_def)
  also have "max ?c 1 = range_page_count mn mx sz"
  proof -
    have "\<lceil>real_of_int (mx - mn) / real_of_int sz\<rceil> = ?c"
      by (rule ceiling_divide_eq_div)
    then show ?thesis
      using False by (simp only: range_page_count_def if_False)
  qed
  also have "rat_of_int (range_page_count mn mx sz) = of_nat (nat (range_page_count mn mx sz))"
    using False by (simp add: range_page_count_def max_def)
  finally show ?thesis .
qed

lemma range_page_count_pos: "0 < sz \<Longrightarrow> 1 \<le> range_page_count mn mx sz"
  by (simp add: range_page_count_def)

lemma rangePage_Fin:
  assumes "1 \<le> P"
  shows "rangePage fs \<lparr>smin = Some mn, smax = Some mx\<rparr> sz (Fin (of_nat (nat P))) i =
     new_task (rangePageUrl fs
        (show_int (if int i = P - 1 then mx else mn + sz * (int i + 1) - 1))
        (show_int (mn + sz * int i)))"
proof -
  have "(rat_of_nat i = rat_of_nat (nat P) - 1) = (int i = P - 1)"
  proof -
    have "rat_of_nat (nat P) - 1 = rat_of_int (P - 1)" using assms by simp
    moreover have "rat_of_nat i = rat_of_int (int i)" by simp
    ultimately show ?thesis by (metis of_int_eq_iff)
  qed
  then show ?thesis
    by (simp add: rangePage_def min_plus_def opt_text_def algebra_simps)
qed

text \<open>
  C1. For statistics \<open>{min, max}\<close> and a positive page size, \<open>_rangePages\<close> returns exactly
  \<open>max(ceil((max - min) / size), 1)\<close> requests, or \<open>max\<close> requests when \<open>max\<close> equals \<open>size\<close>.
  Page \<open>i\<close> has the lower bound \<open>min + size * i\<close>; its upper bound is
  \<open>min + size * (i + 1) - 1\<close>, except on the last page, where it is the global \<open>max\<close>.
\<close>

theorem rangePages_plan:
  assumes "0 < sz"
  shows "rangePages fs \<lparr>smin = Some mn, smax = Some mx\<rparr> sz =
     Some (map (\<lambda>i. new_task (rangePageUrl fs
                  (show_int (if int i = range_page_count mn mx sz - 1 then mx
                             else mn + sz * (int i + 1) - 1))
                  (show_int (mn + sz * int i))))
            [0..<nat (range_page_count mn mx sz)])"
proof -
  let ?st = "\<lparr>smin = Some mn, smax = Some mx\<rparr>"
  let ?N = "nat (range_page_count mn mx sz)"
  have "rangePages fs ?st sz = rangePages_loop fs ?st sz (Fin (of_nat ?N)) 0 []"
    by (simp only: rangePages_def rangePages_pages_pos[OF assms])
  also have "\<dots> = Some ([] @ map (rangePage fs ?st sz (Fin (of_nat ?N))) [0..<?N])"
    by (rule rangePages_loop_Fin) simp
  also have "rangePage fs ?st sz (Fin (of_nat ?N)) =
      (\<lambda>i. new_task (rangePageUrl fs
                  (show_int (if int i = range_page_count mn mx sz - 1 then mx
                             else mn + sz * (int i + 1) - 1))
                  (show_int (mn + sz * int i))))"
    by (rule ext, rule rangePage_Fin[OF range_page_count_pos[OF assms]])
  finally show ?thesis
    by (simp only: append_Nil)
qed

lemma show_int_small:
  "show_int 0 = ''0''" "show_int 1 = ''1''" "show_int 2 = ''2''" "show_int 3 = ''3''"
  "show_int 4 = ''4''" "show_int 8 = ''8''" "show_int 10 = ''10''"
  "show_int 100 = ''100''" "show_int 101 = ''101''" "show_int 200 = ''200''"
  "show_int 201 = ''201''" "show_int 250 = ''250''" "show_int 400 = ''400''"
  by (simp_all add: show_int_def show_nat.simps digit_def)

lemma upt_3: "[0..<3] = [0, 1, 2::nat]"
  by code_simp

theorem rangePages_plan_witness:
  "(0::int) < 100 \<and>
   rangePages demo_service \<lparr>smin = Some 1, smax = Some 250\<rparr> 100 =
     Some [new_task ''http://host/FeatureServer/2/query?outSR=4326&where=OBJECTID<=100+AND+OBJECTID>=1&f=json&outFields=*&geometry=&returnGeometry=true&geometryPrecision='',
           new_task ''http://host/FeatureServer/2/query?outSR=4326&where=OBJECTID<=200+AND+OBJECTID>=101&f=json&outFields=*&geometry=&returnGeometry=true&geometryPrecision='',
           new_task ''http://host/FeatureServer/2/query?outSR=4326&where=OBJECTID<=250+AND+OBJECTID>=201&f=json&outFields=*&geometry=&returnGeometry=true&geometryPrecision='']"
proof -
  have c: "range_page_count 1 250 100 = 3"
    by (simp add: range_page_count_def)
  show ?thesis
    using rangePages_plan[of 100 demo_service 1 250]
    by (simp add: c upt_3 rangePageUrl_def demo_service_def str_text_def or_else_def
          show_int_small)
qed


section \<open>Decimal texts are unambiguous\<close>

lemma digit_value_digit: "d < 10 \<Longrightarrow> digit_value (digit d) = d"
proof -
  assume "d < 10"
  then have "d \<in> {0, 1, 2, 3, 4, 5, 6, 7, 8, 9}" by auto
  then show ?thesis by (auto simp: digit_value_def digit_def)
qed

lemma digits_value_snoc: "digits_value (ds @ [c]) = 10 * digits_value ds + digit_value c"
  by (simp add: digits_value_def)

lemma digits_value_show_nat: "digits_value (show_nat n) = n"
proof (induction n rule: show_nat.induct)
  case (1 n)
  show ?case
  proof (cases "n < 10")
    case True
    then show ?thesis
      by (subst show_nat.simps) (simp add: digits_value_def digit_value_digit)
  next
    case False
    with 1 show ?thesis
      by (subst show_nat.simps) (simp add: digits_value_snoc digit_value_digit)
  qed
qed

lemma digit_not_minus: "d < 10 \<Longrightarrow> digit d \<noteq> CHR ''-''"
proof -
  assume "d < 10"
  then have "d \<in> {0, 1, 2, 3, 4, 5, 6, 7, 8, 9}" by auto
  then show ?thesis by (auto simp: digit_def)
qed

lemma show_nat_nonempty: "show_nat n \<noteq> []"
  by (subst show_nat.simps) simp

lemma hd_show_nat: "hd (show_nat n) \<noteq> CHR ''-''"
proof (induction n rule: show_nat.induct)
  case (1 n)
  show ?case
  proof (cases "n < 10")
    case True
    then show ?thesis by (subst show_nat.simps) (simp add: digit_not_minus)
  next
    case False
    with 1 show ?thesis
      by (subst show_nat.simps) (simp add: show_nat_nonempty)
  qed
qed

lemma show_nat_inj: "show_nat a = show_nat b \<Longrightarrow> a = b"
  by (metis digits_value_show_nat)

lemma show_int_inj: "show_int a = show_int b \<Longrightarrow> a = b"
proof -
  assume eq: "show_int a = show_int b"
  have neg: "\<And>x y. x < 0 \<Longrightarrow> \<not> y < 0 \<Longrightarrow> show_int x \<noteq> show_int y"
  proof
    fix x y :: int assume "x < 0" "\<not> y < 0" "show_int x = show_int y"
    then have "CHR ''-'' # show_nat (nat (- x)) = show_nat (nat y)" by (simp add: show_int_def)
    then have "hd (show_nat (nat y)) = CHR ''-''" by (metis list.sel(1))
    then show False using hd_show_nat by blast
  qed
  show ?thesis
  proof (cases "a < 0"; cases "b < 0")
    assume "a < 0" "b < 0"
    with eq have "nat (- a) = nat (- b)" by (auto simp: show_int_def dest: show_nat_inj)
    with \<open>a < 0\<close> \<open>b < 0\<close> show ?thesis by simp
  next
    assume "a < 0" "\<not> b < 0" with neg eq show ?thesis by blast
  next
    assume "\<not> a < 0" "b < 0" with neg[of b a] eq show ?thesis by auto
  next
    assume "\<not> a < 0" "\<not> b < 0"
    with eq have "nat a = nat b" by (auto simp: show_int_def dest: show_nat_inj)
    with \<open>\<not> a < 0\<close> \<open>\<not> b < 0\<close> show ?thesis by simp
  qed
qed

lemma offsetPageUrl_inj: "offsetPageUrl fs a mx = offsetPageUrl fs b mx \<Longrightarrow> a = b"
  by (auto simp: offsetPageUrl_def dest: show_int_inj)



section \<open>Offset pages of a layer with native pagination\<close>

lemma js_lt_of_int: "js_lt i (Fin (of_int P)) = (int i < P)"
proof -
  have "rat_of_nat i = rat_of_int (int i)" by simp
  then show ?thesis by (simp only: js_lt.simps of_int_less_iff)
qed

lemma offsetPages_loop_Fin:
  "offsetPages_loop fs (Fin (of_int P)) mx i reqs =
     Some (reqs @ map (\<lambda>k. new_task (offsetPageUrl fs (int k * mx) mx)) [i..<nat P])"
proof (induction "nat P - i" arbitrary: i reqs)
  case 0
  then have "\<not> int i < P" by simp
  with 0 show ?case by (subst offsetPages_loop.simps) (simp add: js_lt_of_int del: js_lt.simps)
next
  case (Suc k)
  then have lt: "int i < P" and k: "k = nat P - (i + 1)" and lt': "i < nat P" by auto
  have "offsetPages_loop fs (Fin (of_int P)) mx i reqs =
        offsetPages_loop fs (Fin (of_int P)) mx (i + 1)
          (reqs @ [new_task (offsetPageUrl fs (int i * mx) mx)])"
    by (subst offsetPages_loop.simps) (simp add: js_lt_of_int lt del: js_lt.simps)
  also have "\<dots> = Some ((reqs @ [new_task (offsetPageUrl fs (int i * mx) mx)])
      @ map (\<lambda>k. new_task (offsetPageUrl fs (int k * mx) mx)) [i + 1..<nat P])"
    by (rule Suc.hyps(1)[OF k])
  also have "\<dots> = Some (reqs @ map (\<lambda>k. new_task (offsetPageUrl fs (int k * mx) mx)) [i..<nat P])"
    using lt' by (simp add: upt_conv_Cons)
  finally show ?case .
qed

lemma pageSize_nonzero: "pageSize s \<noteq> 0"
  by (simp add: pageSize_def split: option.split)

lemma pageSize_le: "pageSize s \<le> 1000"
  by (simp add: pageSize_def split: option.split)

lemma nPages_Fin:
  "sz \<noteq> 0 \<Longrightarrow> js_ceil (js_div c sz) = Fin (of_int \<lceil>real_of_int c / real_of_int sz\<rceil>)"
proof -
  assume "sz \<noteq> 0"
  have "\<lceil>rat_of_int c / rat_of_int sz\<rceil> = - (- c div sz)" by (rule ceiling_divide_eq_div)
  moreover have "\<lceil>real_of_int c / real_of_int sz\<rceil> = - (- c div sz)" by (rule ceiling_divide_eq_div)
  ultimately show ?thesis using \<open>sz \<noteq> 0\<close> by (simp add: js_div_def)
qed

lemma offsetPageUrl_oid:
  "offsetPageUrl (fs\<lparr>options := (options fs)\<lparr>objectIdField := x\<rparr>\<rparr>) = offsetPageUrl fs"
  by (rule ext)+ (simp add: offsetPageUrl_def)

lemma metadata_counted:
  assumes "layer_reply srv = Doc raw lyr" and "\<not> is_truthy (get_prop ''error'' raw)"
    and "layer_fields lyr = Some flds"
    and "currentVersion lyr = Some v" and "v \<noteq> 0"
    and "count_reply srv = Doc craw (Some c)" and "\<not> is_truthy (get_prop ''error'' craw)"
    and "1 \<le> c"
  shows "\<exists>m. metadata fs srv = Ok m \<and> meta_count m = Some c
              \<and> meta_size m = maxRecordCount lyr
              \<and> advancedQueryCapabilities (meta_layer m) = advancedQueryCapabilities lyr"
  using assms
  by (simp add: metadata_def layerInfo_def getObjectIdField_def featureCount_def Let_def)

text \<open>
  C3. For a layer that advertises native pagination, with the feature count \<open>c\<close> and the page
  size \<open>sz = min(parseInt(maxRecordCount), 1000)\<close> (1000 when that is \<open>NaN\<close> or 0), \<open>pages\<close>
  returns \<open>ceil(c / sz)\<close> offset requests; request \<open>i\<close> has \<open>resultOffset = i * sz\<close> and
  \<open>resultRecordCount = sz\<close>, and no two requests are the same.
\<close>

theorem pages_offset_plan:
  assumes "layer_reply srv = Doc raw lyr" and "\<not> is_truthy (get_prop ''error'' raw)"
    and "layer_fields lyr = Some flds"
    and "currentVersion lyr = Some v" and "v \<noteq> 0"
    and "count_reply srv = Doc craw (Some c)" and "\<not> is_truthy (get_prop ''error'' craw)"
    and "1 \<le> c"
    and "advancedQueryCapabilities lyr = Some caps" and "supportsPagination caps"
    and "sz = pageSize (maxRecordCount lyr)"
    and "n = nat \<lceil>real_of_int c / real_of_int sz\<rceil>"
  shows "snd (pages fs srv) = Ok (map (\<lambda>i. new_task (offsetPageUrl fs (int i * sz) sz)) [0..<n])
       \<and> distinct (map (\<lambda>i. offsetPageUrl fs (int i * sz) sz) [0..<n])
       \<and> distinct (map (\<lambda>i. int i * sz) [0..<n])
       \<and> sz = (case parseInt_scalar (maxRecordCount lyr) of
                  None \<Rightarrow> 1000
                | Some m \<Rightarrow> if min m 1000 = 0 then 1000 else min m 1000)"
proof -
  obtain m where m: "metadata fs srv = Ok m" "meta_count m = Some c"
      "meta_size m = maxRecordCount lyr"
      "advancedQueryCapabilities (meta_layer m) = advancedQueryCapabilities lyr"
    using metadata_counted[OF assms(1-8)] by blast
  have nz: "sz \<noteq> 0" using assms(11) by (simp add: pageSize_nonzero)
  let ?fs' = "fs\<lparr>options := (options fs)\<lparr>objectIdField := oid m\<rparr>\<rparr>"
  have "snd (pages fs srv) = built (offsetPages ?fs' (js_ceil (js_div c sz)) sz)"
    using m assms(9,10,11) by (simp add: pages_def Let_def)
  also have "\<dots> = Ok (map (\<lambda>i. new_task (offsetPageUrl fs (int i * sz) sz)) [0..<n])"
    by (simp add: nPages_Fin[OF nz] offsetPages_def offsetPages_loop_Fin built_def
          offsetPageUrl_oid assms(12) del: js_ceil.simps)
  finally have 1: "snd (pages fs srv) =
      Ok (map (\<lambda>i. new_task (offsetPageUrl fs (int i * sz) sz)) [0..<n])" .
  have inj: "inj_on (\<lambda>i. int i * sz) (set [0..<n])"
    using nz by (auto simp: inj_on_def)
  have 3: "distinct (map (\<lambda>i. int i * sz) [0..<n])"
    using inj by (simp add: distinct_map)
  have "inj_on (\<lambda>i. offsetPageUrl fs (int i * sz) sz) (set [0..<n])"
    using nz by (auto simp: inj_on_def dest!: offsetPageUrl_inj)
  then have 2: "distinct (map (\<lambda>i. offsetPageUrl fs (int i * sz) sz) [0..<n])"
    by (simp add: distinct_map)
  have 4: "sz = (case parseInt_scalar (maxRecordCount lyr) of
                  None \<Rightarrow> 1000
                | Some m \<Rightarrow> if min m 1000 = 0 then 1000 else min m 1000)"
    using assms(11) by (simp add: pageSize_def)
  from 1 2 3 4 show ?thesis by blast
qed

theorem pages_offset_plan_witness:
  "snd (pages demo_service (demo_server demo_layer 2500)) =
     Ok [new_task ''http://host/FeatureServer/2/query?outSR=4326&f=json&outFields=*&where=1=1&resultOffset=0&resultRecordCount=1000&geometry=&returnGeometry=true&geometryPrecision='',
         new_task ''http://host/FeatureServer/2/query?outSR=4326&f=json&outFields=*&where=1=1&resultOffset=1000&resultRecordCount=1000&geometry=&returnGeometry=true&geometryPrecision='',
         new_task ''http://host/FeatureServer/2/query?outSR=4326&f=json&outFields=*&where=1=1&resultOffset=2000&resultRecordCount=1000&geometry=&returnGeometry=true&geometryPrecision='']
   \<and> distinct [0, 1000, 2000 :: int]
   \<and> pageSize (maxRecordCount demo_layer) = 1000"
proof -
  let ?srv = "demo_server demo_layer 2500"
  have sz: "1000 = pageSize (maxRecordCount demo_layer)"
    by (simp add: pageSize_def demo_layer_def)
  have n: "(3::nat) = nat \<lceil>real_of_int 2500 / real_of_int 1000\<rceil>"
    by simp
  have s: "show_int 1000 = ''1000''" "show_int 2000 = ''2000''"
    by (simp_all add: show_int_def show_nat.simps digit_def)
  have h: "layer_reply ?srv = Doc (JObj [(''maxRecordCount'', JNum 2000)]) demo_layer"
      "\<not> is_truthy (get_prop ''error'' (JObj [(''maxRecordCount'', JNum 2000)]))"
      "layer_fields demo_layer = Some [\<lparr>name = ''OBJECTID'', type = ''esriFieldTypeOID''\<rparr>,
                           \<lparr>name = ''NAME'', type = ''esriFieldTypeString''\<rparr>]"
      "currentVersion demo_layer = Some (103 / 10)" "(103 / 10 :: rat) \<noteq> 0"
      "count_reply ?srv = Doc (JObj [(''count'', JNum 2500)]) (Some 2500)"
      "\<not> is_truthy (get_prop ''error'' (JObj [(''count'', JNum 2500)]))"
      "(1::int) \<le> 2500"
      "advancedQueryCapabilities demo_layer = Some \<lparr>supportsPagination = True\<rparr>"
      "supportsPagination \<lparr>supportsPagination = True\<rparr>"
    by (simp_all add: demo_server_def demo_layer_def)
  have "snd (pages demo_service ?srv) =
          Ok (map (\<lambda>i. new_task (offsetPageUrl demo_service (int i * 1000) 1000)) [0..<3])
       \<and> distinct (map (\<lambda>i. offsetPageUrl demo_service (int i * 1000) 1000) [0..<3])
       \<and> distinct (map (\<lambda>i. int i * 1000) [0..<3])
       \<and> 1000 = (case parseInt_scalar (maxRecordCount demo_layer) of
                  None \<Rightarrow> 1000
                | Some m \<Rightarrow> if min m 1000 = 0 then 1000 else min m 1000)"
    by (rule pages_offset_plan[OF h sz n])
  then show ?thesis
    by (simp add: sz[symmetric] upt_3 offsetPageUrl_def demo_service_def
          or_else_def show_int_small s)
qed


section \<open>The feature count in the metadata\<close>

text \<open>
  C8. After \<open>layerInfo\<close> succeeded: without \<open>currentVersion\<close>, \<open>metadata\<close> returns layer, oid
  and size and no count; with a version, it follows \<open>featureCount\<close> and fails with
  \<open>Service returned count of 0\<close> when the count request succeeded with a count below 1.
\<close>

theorem metadata_count_policy:
  assumes "layerInfo fs srv = Ok lyr" and "getObjectIdField lyr = Ok field"
  shows "(currentVersion lyr = None \<longrightarrow>
            metadata fs srv = Ok \<lparr>meta_layer = lyr, oid = field,
                                  meta_size = maxRecordCount lyr, meta_count = None\<rparr>)
       \<and> (currentVersion lyr = Some v \<and> v \<noteq> 0 \<longrightarrow>
            metadata fs srv =
              (case featureCount fs srv of
                 Ok c \<Rightarrow> (if (case c of None \<Rightarrow> False | Some k \<Rightarrow> k < 1)
                          then Err (Error ''Service returned count of 0'')
                          else Ok \<lparr>meta_layer = lyr, oid = field,
                                   meta_size = maxRecordCount lyr, meta_count = c\<rparr>)
               | Err e \<Rightarrow> Err e
               | TypeError \<Rightarrow> TypeError
               | Endless \<Rightarrow> Endless))
       \<and> (currentVersion lyr = Some v \<and> v \<noteq> 0 \<and> featureCount fs srv = Ok (Some k) \<and> k < 1 \<longrightarrow>
            metadata fs srv = Err (Error ''Service returned count of 0''))"
  using assms by (auto simp: metadata_def split: outcome.splits)

lemma metadata_demo_facts:
  "layerInfo demo_service (demo_server lyr c) =
     Ok (lyr\<lparr>doc_url := Some ''http://host/FeatureServer/2?f=json''\<rparr>)"
  "featureCount demo_service (demo_server lyr c) = Ok (Some c)"
  by (simp_all add: layerInfo_def featureCount_def demo_server_def demo_service_def
        show_int_small)

theorem metadata_count_policy_witness:
  "metadata demo_service (demo_server (demo_layer\<lparr>currentVersion := None\<rparr>) 0) =
     Ok \<lparr>meta_layer = demo_layer\<lparr>currentVersion := None,
                                    doc_url := Some ''http://host/FeatureServer/2?f=json''\<rparr>,
         oid = Some ''OBJECTID'', meta_size = Num 2000, meta_count = None\<rparr>
   \<and> featureCount demo_service (demo_server demo_layer 0) = Ok (Some 0)
   \<and> metadata demo_service (demo_server demo_layer 0) =
       Err (Error ''Service returned count of 0'')"
proof -
  let ?u = "''http://host/FeatureServer/2?f=json''"
  have o: "getObjectIdField (demo_layer\<lparr>doc_url := Some ?u\<rparr>) = Ok (Some ''OBJECTID'')"
          "getObjectIdField (demo_layer\<lparr>currentVersion := None, doc_url := Some ?u\<rparr>)
             = Ok (Some ''OBJECTID'')"
    by (simp_all add: getObjectIdField_def demo_layer_def)
  have v: "currentVersion (demo_layer\<lparr>doc_url := Some ?u\<rparr>) = Some (103 / 10)"
          "maxRecordCount demo_layer = Num 2000"
    by (simp_all add: demo_layer_def)
  show ?thesis
    using metadata_count_policy[OF metadata_demo_facts(1) o(2)]
          metadata_count_policy[OF metadata_demo_facts(1) o(1), where v = "103 / 10" and k = 0]
    by (simp add: metadata_demo_facts v)
qed



section \<open>Retry policy\<close>








lemma react_catchErrors:
  "react (catchErrors fs t e uri) =
     (if retry t = Some 3
      then ([Queue_killed,
             Callback_failure (JSON_stringify
               (buildError uri ''Request for a page of features failed'' e))], None)
      else ([Timer ((case retry t of None \<Rightarrow> 1 | Some r \<Rightarrow> r + 1) * 1000)],
            Some (t\<lparr>retry := Some (case retry t of None \<Rightarrow> 1 | Some r \<Rightarrow> r + 1)\<rparr>)))"
  by (simp add: catchErrors_def abortPaging_def Let_def split: option.split)





lemma decode_calls: "decode rt enc data = (calls, fin) \<Longrightarrow> length calls \<le> 1"
  by (auto simp: decode_def Let_def split: if_splits option.splits json.splits)

lemma attempt_shape:
  assumes "attempt rt fs t uri x = ((events, again), fin)"
  shows "fetches events = 0 \<and>
         (again = None \<or>
          (retry t \<noteq> Some 3 \<and>
           again = Some (t\<lparr>retry := Some (case retry t of None \<Rightarrow> 1 | Some r \<Rightarrow> r + 1)\<rparr>)))"
proof (cases x)
  case (Response enc data)
  obtain calls f where d: "decode rt enc data = (calls, f)" by (cases "decode rt enc data")
  show ?thesis
  proof (cases calls)
    case Nil
    with assms Response d show ?thesis by (simp add: attempt_def fetches_def)
  next
    case (Cons c cs)
    show ?thesis
    proof (cases c)
      case (Failure err)
      with assms Response d Cons show ?thesis
        by (auto simp: attempt_def fetches_def react_catchErrors split: if_splits)
    next
      case (Success j)
      with assms Response d Cons show ?thesis
        by (auto simp: attempt_def fetches_def)
    qed
  qed
qed (use assms in \<open>auto simp: attempt_def fetches_def react_catchErrors split: if_splits\<close>)

lemma fetches_bound:
  "retry t = None \<or> (\<exists>r. retry t = Some r \<and> 1 \<le> r \<and> r \<le> 3) \<Longrightarrow>
   fetches (requestFeatures rt fs t xs) \<le> budget t"
proof (induction xs arbitrary: t)
  case Nil
  then show ?case by (auto simp: fetches_def budget_def requestFeatures.simps)
next
  case (Cons x xs)
  let ?uri = "encodeURI_decodeURI rt (req t)"
  obtain events again fin where a: "attempt rt fs t ?uri x = ((events, again), fin)"
    by (metis surj_pair)
  note sh = attempt_shape[OF a]
  let ?n = "case retry t of None \<Rightarrow> 1 | Some r \<Rightarrow> r + 1"
  show ?case
  proof (cases "fin = Thrown \<or> again = None")
    case True
    then have "fetches (requestFeatures rt fs t (x # xs)) = 1"
      using a sh by (auto simp: fetches_def Let_def requestFeatures.simps)
    moreover have "1 \<le> budget t" using Cons.prems by (auto simp: budget_def)
    ultimately show ?thesis by simp
  next
    case False
    then have ag: "again = Some (t\<lparr>retry := Some ?n\<rparr>)" and n3: "retry t \<noteq> Some 3"
      and fin: "fin \<noteq> Thrown"
      using sh by auto
    let ?t' = "t\<lparr>retry := Some ?n\<rparr>"
    have pre: "retry ?t' = None \<or> (\<exists>r. retry ?t' = Some r \<and> 1 \<le> r \<and> r \<le> 3)"
      using Cons.prems n3 by auto
    have b: "budget ?t' + 1 \<le> budget t"
      using Cons.prems n3 by (auto simp: budget_def)
    have "fetches (requestFeatures rt fs t (x # xs)) = 1 + fetches (requestFeatures rt fs ?t' xs)"
      using a sh ag fin by (simp add: fetches_def Let_def requestFeatures.simps)
    with Cons.IH[OF pre] b show ?thesis by simp
  qed
qed


text \<open>The attempts of the examples.\<close>

lemma timeout_error:
  "buildError ''http://host/p'' ''Request for a page of features failed''
     (Some (JObj [(''type'', JStr ''The request timed out after 90 seconds.'')])) =
   JObj [(''type'', JStr ''The request timed out after 90 seconds.''),
       (''message'', JStr ''Request for a page of features failed''),
       (''request'', JStr ''http://host/p''),
       (''response'', JStr ''Request for a page of features failed''),
       (''code'', JNum 500)]"
  by (simp add: buildError_def)

lemma attempt_timeout:
  "attempt demo_runtime demo_service t ''http://host/p'' TimedOut =
     (react (catchErrors demo_service t
        (Some (JObj [(''type'', JStr ''The request timed out after 90 seconds.'')]))
        ''http://host/p''), Returned)"
  by (simp add: attempt_def demo_service_def show_nat.simps digit_def)

lemma attempt_features:
  "attempt demo_runtime demo_service t u (Response None [''{\"features\":[]}'']) =
     (([Callback_page (JObj [(''features'', JArr [])])], None), Returned)"
  by (simp add: attempt_def decode_def parse_body_def demo_runtime_def demo_parse_def)

lemma demo_uri: "encodeURI_decodeURI demo_runtime = (\<lambda>s. s)"
  by (simp add: demo_runtime_def)

text \<open>
  C5, as the specification states it, fails: after three recorded failures the task is
  requested a fourth time, and that request may succeed.
\<close>

theorem fourth_fetch_after_three_failures:
  "requestFeatures demo_runtime demo_service (new_task ''http://host/p'')
     [TimedOut, TimedOut, TimedOut, Response None [''{\"features\":[]}'']] =
   [Fetch ''http://host/p'', Timer 1000, Fetch ''http://host/p'', Timer 2000,
    Fetch ''http://host/p'', Timer 3000, Fetch ''http://host/p'',
    Callback_page (JObj [(''features'', JArr [])])]"
  by (simp add: requestFeatures.simps demo_uri new_task_def attempt_timeout attempt_features
        react_catchErrors Let_def)

text \<open>
  C5, amended. The third failure of a task (counter 2) sets the counter to 3 and a timer of
  3000 ms for a fourth request; a failure with the counter at 3 aborts; a task that
  starts without a counter is requested at most four times.
\<close>

theorem abort_on_fourth_failure:
  assumes "retry t = None"
  shows "fetches (requestFeatures rt fs t xs) \<le> 4
       \<and> catchErrors fs (t\<lparr>retry := Some 2\<rparr>) e uri = Rescheduled (t\<lparr>retry := Some 3\<rparr>) 3000
       \<and> catchErrors fs (t\<lparr>retry := Some 3\<rparr>) e uri =
           Aborted (fs\<lparr>pageQueue := kill (pageQueue fs)\<rparr>)
             (JSON_stringify (buildError uri ''Request for a page of features failed'' e))"
proof -
  have "fetches (requestFeatures rt fs t xs) \<le> budget t"
    by (rule fetches_bound) (simp add: assms)
  then have "fetches (requestFeatures rt fs t xs) \<le> 4"
    using assms by (simp add: budget_def)
  moreover have "catchErrors fs (t\<lparr>retry := Some 2\<rparr>) e uri = Rescheduled (t\<lparr>retry := Some 3\<rparr>) 3000"
    by (simp add: catchErrors_def Let_def)
  moreover have "catchErrors fs (t\<lparr>retry := Some 3\<rparr>) e uri =
           Aborted (fs\<lparr>pageQueue := kill (pageQueue fs)\<rparr>)
             (JSON_stringify (buildError uri ''Request for a page of features failed'' e))"
    by (simp add: catchErrors_def abortPaging_def Let_def)
  ultimately show ?thesis by blast
qed

lemma five_timeouts:
  "requestFeatures demo_runtime demo_service (new_task ''http://host/p'')
     [TimedOut, TimedOut, TimedOut, TimedOut, TimedOut] =
   [Fetch ''http://host/p'', Timer 1000, Fetch ''http://host/p'', Timer 2000,
    Fetch ''http://host/p'', Timer 3000, Fetch ''http://host/p'', Queue_killed,
    Callback_failure (JSON_stringify (JObj
      [(''type'', JStr ''The request timed out after 90 seconds.''),
       (''message'', JStr ''Request for a page of features failed''),
       (''request'', JStr ''http://host/p''),
       (''response'', JStr ''Request for a page of features failed''),
       (''code'', JNum 500)]))]"
  by (simp add: requestFeatures.simps demo_uri new_task_def attempt_timeout react_catchErrors
        timeout_error Let_def)

theorem abort_on_fourth_failure_witness:
  "retry (new_task ''http://host/p'') = None
   \<and> fetches (requestFeatures demo_runtime demo_service (new_task ''http://host/p'')
        [TimedOut, TimedOut, TimedOut, TimedOut, TimedOut]) = 4
   \<and> fetches (requestFeatures demo_runtime demo_service (new_task ''http://host/p'')
        [TimedOut, TimedOut, TimedOut, TimedOut, TimedOut]) \<le> 4"
proof -
  have r: "retry (new_task ''http://host/p'') = None"
    by (simp add: new_task_def)
  have f: "fetches (requestFeatures demo_runtime demo_service (new_task ''http://host/p'')
        [TimedOut, TimedOut, TimedOut, TimedOut, TimedOut]) = 4"
    by (simp only: five_timeouts) (simp add: fetches_def)
  from abort_on_fourth_failure[OF r, of demo_runtime demo_service
            "[TimedOut, TimedOut, TimedOut, TimedOut, TimedOut]"]
  have "fetches (requestFeatures demo_runtime demo_service (new_task ''http://host/p'')
        [TimedOut, TimedOut, TimedOut, TimedOut, TimedOut]) \<le> 4"
    by blast
  with r f show ?thesis by blast
qed

section \<open>Decoding\<close>

text \<open>The replacement leaves no \<open>NaN\<close> behind and changes nothing else.\<close>

lemma replace_NaN_Cons:
  "replace_NaN s = x # r \<Longrightarrow> x \<noteq> CHR ''n'' \<Longrightarrow> \<exists>s'. s = x # s' \<and> r = replace_NaN s'"
  by (cases s) (auto split: if_splits)

lemma replace_NaN_prefix_aN:
  assumes "prefix ''aN'' (replace_NaN s)"
  shows "prefix ''aN'' s"
proof -
  from assms obtain r where r: "replace_NaN s = CHR ''a'' # CHR ''N'' # r"
    by (auto simp: prefix_def)
  from replace_NaN_Cons[OF r] obtain s' where s': "s = CHR ''a'' # s'" "CHR ''N'' # r = replace_NaN s'"
    by auto
  from replace_NaN_Cons[OF s'(2)[symmetric]] obtain s'' where "s' = CHR ''N'' # s''"
    by auto
  with s' show ?thesis by simp
qed

lemma null_clean: "\<not> sublist ''NaN'' r \<Longrightarrow> \<not> sublist ''NaN'' (''null'' @ r)"
  by (simp add: sublist_Cons_right)

lemma replace_NaN_clean: "\<not> sublist ''NaN'' (replace_NaN s)"
proof (induction s rule: replace_NaN.induct)
  case 1
  show ?case by simp
next
  case (2 c cs)
  show ?case
  proof (cases "prefix ''NaN'' (c # cs)")
    case True
    have eq: "replace_NaN (c # cs) = ''null'' @ replace_NaN (drop 3 (c # cs))"
      using True by (simp only: replace_NaN.simps if_True)
    show ?thesis
      unfolding eq by (rule null_clean) (rule 2(1)[OF True])
  next
    case False
    have eq: "replace_NaN (c # cs) = c # replace_NaN cs"
      using False by (simp only: replace_NaN.simps if_False)
    have ih: "\<not> sublist ''NaN'' (replace_NaN cs)" by (rule 2(2)[OF False])
    have "\<not> prefix ''NaN'' (c # replace_NaN cs)"
    proof
      assume "prefix ''NaN'' (c # replace_NaN cs)"
      then have c: "CHR ''N'' = c" and "prefix ''aN'' (replace_NaN cs)"
        using Cons_prefix_Cons[of "CHR ''N''" "''aN''" c "replace_NaN cs"] by blast+
      then have "prefix ''aN'' cs" using replace_NaN_prefix_aN by blast
      with c have "prefix ''NaN'' (c # cs)"
        using Cons_prefix_Cons[of "CHR ''N''" "''aN''" c cs] by blast
      with False show False by blast
    qed
    with ih show ?thesis
      unfolding eq using sublist_Cons_right[of "''NaN''" c "replace_NaN cs"] by blast
  qed
qed

lemma replace_NaN_id: "\<not> sublist ''NaN'' s \<Longrightarrow> replace_NaN s = s"
proof (induction s rule: replace_NaN.induct)
  case 1
  show ?case by simp
next
  case (2 c cs)
  from 2(3) have np: "\<not> prefix ''NaN'' (c # cs)" and ns: "\<not> sublist ''NaN'' cs"
    using sublist_Cons_right[of "''NaN''" c cs] by blast+
  have eq: "replace_NaN (c # cs) = c # replace_NaN cs"
    using np by (simp only: replace_NaN.simps if_False)
  show ?case unfolding eq using 2(2)[OF np ns] by simp
qed

text \<open>
  C6. \<open>_decode\<close> replaces \<open>NaN\<close> by \<open>null\<close> before parsing a gzip body and a body without a
  recognized encoding, and parses a deflate body as it is; so a gzip or plain body whose
  sanitized text parses to an object without an error is decoded with success.
\<close>

theorem decode_sanitization:
  "parse_body rt (Some ''gzip'') buffer =
     (case gunzipSync rt buffer of None \<Rightarrow> None | Some text \<Rightarrow> JSON_parse rt (replace_NaN text))
   \<and> parse_body rt (Some ''deflate'') buffer =
     (case inflateSync rt buffer of None \<Rightarrow> None | Some text \<Rightarrow> JSON_parse rt text)
   \<and> (encoding \<noteq> Some ''gzip'' \<and> encoding \<noteq> Some ''deflate'' \<longrightarrow>
        parse_body rt encoding buffer = JSON_parse rt (replace_NaN buffer))
   \<and> \<not> sublist ''NaN'' (replace_NaN buffer)
   \<and> (data \<noteq> [] \<and> parse_body rt encoding (concat data) = Some (JObj kvs)
        \<and> \<not> is_truthy (map_of kvs ''error'') \<longrightarrow>
        decode rt encoding data = ([Success (JObj kvs)], Returned))"
  by (simp add: parse_body_def decode_def replace_NaN_clean)


theorem decode_sanitization_witness:
  "decode demo_runtime (Some ''gzip'') [''gz:{\"a\":'', ''NaN}''] =
     ([Success (JObj [(''a'', JNull)])], Returned)
   \<and> decode demo_runtime None [''{\"a\":'', ''NaN}''] =
     ([Success (JObj [(''a'', JNull)])], Returned)
   \<and> parse_body demo_runtime (Some ''deflate'') ''zz:{\"a\":NaN}'' = demo_parse ''{\"a\":NaN}''
   \<and> demo_parse ''{\"a\":NaN}'' = None"
proof -
  have r: "replace_NaN ''{\"a\":NaN}'' = ''{\"a\":null}''"
    by simp
  have p: "demo_parse ''{\"a\":null}'' = Some (JObj [(''a'', JNull)])"
       "demo_parse ''{\"a\":NaN}'' = None"
    by (simp_all add: demo_parse_def)
  have g: "gunzipSync demo_runtime ''gz:{\"a\":NaN}'' = Some ''{\"a\":NaN}''"
       "inflateSync demo_runtime ''zz:{\"a\":NaN}'' = Some ''{\"a\":NaN}''"
       "JSON_parse demo_runtime = demo_parse"
    by (simp_all add: demo_runtime_def)
  show ?thesis
    using decode_sanitization[of demo_runtime "''gz:{\"a\":NaN}''" "Some ''gzip''"
            "[''gz:{\"a\":'', ''NaN}'']" "[(''a'', JNull)]"]
          decode_sanitization[of demo_runtime "''zz:{\"a\":NaN}''" None
            "[''{\"a\":'', ''NaN}'']" "[(''a'', JNull)]"]
    by (simp add: r p g parse_body_def)
qed


text \<open>
  C7. When the body parses to a document with a truthy \<open>error\<close> (every error object is
  truthy), \<open>_decode\<close> calls back with that error and not with the document; the page
  request hands it to \<open>_catchErrors\<close>, and with the retries used up the callback of the
  task receives the normalized error.
\<close>

theorem decode_embedded_error:
  assumes "data \<noteq> []"
    and "parse_body rt encoding (concat data) = Some j"
    and "get_prop ''error'' j = Some e"
    and "is_truthy (Some e)"
  shows "decode rt encoding data = ([Failure e], Returned)
       \<and> attempt rt fs t uri (Response encoding data) =
             (react (catchErrors fs t (Some e) uri), Returned)
       \<and> (retry t = Some 3 \<longrightarrow>
            requestFeatures rt fs t (Response encoding data # xs) =
              [Fetch (encodeURI_decodeURI rt (req t)), Queue_killed,
               Callback_failure (JSON_stringify
                 (buildError (encodeURI_decodeURI rt (req t))
                    ''Request for a page of features failed'' (Some e)))])"
proof -
  have jn: "j \<noteq> JNull" using assms(3) by auto
  have d: "decode rt encoding data = ([Failure e], Returned)"
    using assms jn by (cases j) (simp_all add: decode_def)
  then have a: "\<And>u. attempt rt fs t u (Response encoding data) =
             (react (catchErrors fs t (Some e) u), Returned)"
    by (simp add: attempt_def)
  show ?thesis
    using d a by (simp add: requestFeatures.simps react_catchErrors Let_def)
qed

theorem decode_embedded_error_witness:
  "decode demo_runtime None [''{\"error\":{\"code\":400,\"message\":\"bad\"}}''] =
     ([Failure (JObj [(''code'', JNum 400), (''message'', JStr ''bad'')])], Returned)
   \<and> requestFeatures demo_runtime demo_service \<lparr>req = ''http://host/p'', retry = Some 3\<rparr>
        [Response None [''{\"error\":{\"code\":400,\"message\":\"bad\"}}'']] =
       [Fetch ''http://host/p'', Queue_killed,
        Callback_failure (JSON_stringify (JObj
          [(''code'', JNum 400),
           (''message'', JStr ''Request for a page of features failed''),
           (''request'', JStr ''http://host/p''),
           (''response'', JStr ''Request for a page of features failed''),
           (''type'', JStr ''Unknown failure'')]))]"
proof -
  let ?body = "''{\"error\":{\"code\":400,\"message\":\"bad\"}}''"
  let ?e = "JObj [(''code'', JNum 400), (''message'', JStr ''bad'')]"
  have h: "[?body] \<noteq> []"
      "parse_body demo_runtime None (concat [?body]) = Some (JObj [(''error'', ?e)])"
      "get_prop ''error'' (JObj [(''error'', ?e)]) = Some ?e"
      "is_truthy (Some ?e)"
    by (simp_all add: parse_body_def demo_runtime_def demo_parse_def)
  have b: "buildError ''http://host/p'' ''Request for a page of features failed'' (Some ?e) =
      JObj [(''code'', JNum 400),
           (''message'', JStr ''Request for a page of features failed''),
           (''request'', JStr ''http://host/p''),
           (''response'', JStr ''Request for a page of features failed''),
           (''type'', JStr ''Unknown failure'')]"
    by (simp add: buildError_def)
  show ?thesis
    using decode_embedded_error[OF h, of demo_service
            "\<lparr>req = ''http://host/p'', retry = Some 3\<rparr>" "''http://host/p''" "[]"]
    by (simp add: b demo_uri)
qed

text \<open>
  C10. When the body does not parse, the \<open>catch\<close> block of \<open>_decode\<close> calls back with the
  parse error and goes on: the test of \<open>json.error\<close> then reads a property of \<open>undefined\<close>,
  and \<open>_decode\<close> ends with an uncaught \<open>TypeError\<close> instead of returning.
\<close>

theorem decode_parse_failure:
  assumes "data \<noteq> []" and "parse_body rt encoding (concat data) = None"
  shows "decode rt encoding data =
           ([Failure (JObj [(''type'', JStr ''Failed to parse feature response'')])], Thrown)"
  using assms by (simp add: decode_def)

theorem decode_parse_failure_witness:
  "[''zz:{\"a\":'', ''NaN}''] \<noteq> []
   \<and> parse_body demo_runtime (Some ''deflate'') (concat [''zz:{\"a\":'', ''NaN}'']) = None
   \<and> decode demo_runtime (Some ''deflate'') [''zz:{\"a\":'', ''NaN}''] =
           ([Failure (JObj [(''type'', JStr ''Failed to parse feature response'')])], Thrown)"
proof -
  have p: "parse_body demo_runtime (Some ''deflate'') (concat [''zz:{\"a\":'', ''NaN}'']) = None"
    by (simp add: parse_body_def demo_runtime_def demo_parse_def)
  show ?thesis
    using decode_parse_failure[of "[''zz:{\"a\":'', ''NaN}'']" demo_runtime "Some ''deflate''"] p
    by simp
qed

section \<open>Id pages name a field that is not the object id field\<close>

text \<open>
  For a positive size the loop of \<open>_idPages\<close> ends and builds one request for each chunk
  of the ids; the extra round of the loop finds nothing left.
\<close>

lemma idPages_cond:
  assumes "0 < sz"
  shows "js_lt i (js_succ (js_div (int L) sz)) = (int i * sz < int L + sz)"
proof -
  have pos: "0 < rat_of_int sz" using assms by simp
  have "(rat_of_nat i < rat_of_int (int L) / rat_of_int sz + 1)
        = (rat_of_nat i * rat_of_int sz < rat_of_int (int L) + rat_of_int sz)"
    using pos by (simp add: field_simps)
  also have "\<dots> = (rat_of_int (int i * sz) < rat_of_int (int L + sz))"
    by simp
  also have "\<dots> = (int i * sz < int L + sz)"
    by (rule of_int_less_iff)
  finally show ?thesis
    using assms by (simp add: js_div_def)
qed

lemma idPages_loop_empty:
  assumes "0 < sz"
  shows "idPages_loop fs f (js_div (int L) sz) sz i [] reqs = Some reqs"
proof (induction "nat (int L + sz) - i" arbitrary: i)
  case 0
  then have "int L + sz \<le> int i" by simp
  moreover have "int i \<le> int i * sz" using assms by (simp add: mult_le_cancel_left1)
  ultimately have "\<not> int i * sz < int L + sz" by simp
  then show ?case
    by (subst idPages_loop.simps) (simp add: idPages_cond[OF assms] del: js_lt.simps)
next
  case (Suc k)
  then have k: "k = nat (int L + sz) - Suc i" by simp
  show ?case
    by (subst idPages_loop.simps) (simp add: Suc.hyps(1)[OF k] del: js_lt.simps)
qed

lemma idPages_loop_chunks:
  assumes "0 < sz"
  shows "int (length ids) + int i * sz \<le> int L \<Longrightarrow>
         idPages_loop fs f (js_div (int L) sz) sz i ids reqs =
           Some (reqs @ map (idPage fs f) (chunks (nat sz) ids))"
proof (induction "nat sz" ids arbitrary: i reqs rule: chunks.induct)
  case (1 ids)
  show ?case
  proof (cases "ids = []")
    case True
    then show ?thesis
      by (simp add: idPages_loop_empty[OF assms] chunks.simps)
  next
    case False
    then have "0 < length ids" by simp
    with 1(2) have "int i * sz < int L" by linarith
    then have c: "int i * sz < int L + sz" using assms by simp
    let ?ids' = "drop (nat sz) ids"
    let ?reqs' = "reqs @ [idPage fs f (take (nat sz) ids)]"
    have tk: "take (nat sz) ids \<noteq> []" using False assms by simp
    have step: "idPages_loop fs f (js_div (int L) sz) sz i ids reqs =
                idPages_loop fs f (js_div (int L) sz) sz (i + 1) ?ids' ?reqs'"
      using assms False
      by (subst idPages_loop.simps) (simp add: idPages_cond[OF assms] c Let_def del: js_lt.simps)
    have ch: "chunks (nat sz) ids = take (nat sz) ids # chunks (nat sz) ?ids'"
      using False assms by (subst chunks.simps) simp
    show ?thesis
    proof (cases "?ids' = []")
      case True
      have "chunks (nat sz) ?ids' = []"
        using True by (subst chunks.simps) simp
      with True show ?thesis
        by (simp only: step ch idPages_loop_empty[OF assms]) simp
    next
      case False
      then have len: "nat sz < length ids" by simp
      then have "int (length ?ids') = int (length ids) - sz" using assms by simp
      with 1(2) have inv: "int (length ?ids') + int (i + 1) * sz \<le> int L"
        by (simp add: algebra_simps)
      have "nat sz \<noteq> 0 \<and> ids \<noteq> []" using assms \<open>ids \<noteq> []\<close> by simp
      then have "\<not> (nat sz = 0 \<or> ids = [])" by simp
      from 1(1)[OF this inv]
      show ?thesis by (simp add: step ch del: js_lt.simps)
    qed
  qed
qed

lemma idPages_chunks:
  assumes "0 < sz"
  shows "idPages fs ids sz = Some (map (idPage fs (oidField_of fs)) (chunks (nat sz) ids))"
  using idPages_loop_chunks[OF assms, of ids 0 "length ids" fs "oidField_of fs" "[]"]
  by (simp add: idPages_def oidField_of_def Let_def)

lemma idWhere_agrees_iff: "idWhere f a b = idWhere_spec f a b \<longleftrightarrow> f = ''oidField''"
  by (auto simp: idWhere_def idWhere_spec_def)

lemma idWhere_demo:
  "idWhere ''OBJECTID'' 0 4 = ''OBJECTID > 0 AND oidField<=4''"
  "idWhere ''OBJECTID'' 4 8 = ''OBJECTID > 4 AND oidField<=8''"
  "idWhere ''OBJECTID'' 8 10 = ''OBJECTID > 8 AND oidField<=10''"
  "idWhere_spec ''OBJECTID'' 0 4 = ''OBJECTID > 0 AND OBJECTID<=4''"
  by (simp_all add: idWhere_def idWhere_spec_def show_int_small)

text \<open>
  C2 at the ids 1 to 10 with size 4 and the object id field \<open>OBJECTID\<close>: three chunks with
  the bounds (0, 4], (4, 8] and (8, 10], as the specification says, but the upper bound
  is a condition on the literal name \<open>oidField\<close>, where the specification has the
  configured field.
\<close>

theorem idPages_literal_field:
  "idPages demo_service [1, 2, 3, 4, 5, 6, 7, 8, 9, 10] 4 =
     Some [new_task (idPageUrl demo_service ''OBJECTID > 0 AND oidField<=4''),
           new_task (idPageUrl demo_service ''OBJECTID > 4 AND oidField<=8''),
           new_task (idPageUrl demo_service ''OBJECTID > 8 AND oidField<=10'')]
   \<and> idWhere_spec ''OBJECTID'' 0 4 = ''OBJECTID > 0 AND OBJECTID<=4''
   \<and> idWhere ''OBJECTID'' 0 4 \<noteq> idWhere_spec ''OBJECTID'' 0 4"
proof -
  have o: "objectIdField (options demo_service) = Some ''OBJECTID''"
    by (simp add: demo_service_def)
  have "idPages demo_service [1, 2, 3, 4, 5, 6, 7, 8, 9, 10] 4 =
     Some [new_task (idPageUrl demo_service ''OBJECTID > 0 AND oidField<=4''),
           new_task (idPageUrl demo_service ''OBJECTID > 4 AND oidField<=8''),
           new_task (idPageUrl demo_service ''OBJECTID > 8 AND oidField<=10'')]"
    by (simp add: idPages_def o js_div_def idPages_loop.simps idPage_def idWhere_demo Let_def)
  then show ?thesis
    by (simp add: idWhere_demo)
qed

section \<open>Page requests and the layer of the URL\<close>

text \<open>
  Every request of the three strategies starts with the service URL and the layer of the
  options. The layer of the service is that layer only when the URL does not end in one.
\<close>

lemma offsetPages_base:
  assumes "offsetPages_loop fs np mx i reqs = Some out"
    and "\<forall>t\<in>set reqs. prefix (page_base fs) (req t)"
  shows "\<forall>t\<in>set out. prefix (page_base fs) (req t)"
proof -
  have "(\<forall>t\<in>set reqs. prefix (page_base fs) (req t)) \<longrightarrow>
        (\<forall>t\<in>set out. prefix (page_base fs) (req t))"
  proof (rule offsetPages_loop.raw_induct[where P = "\<lambda>fs np mx i reqs out.
           (\<forall>t\<in>set reqs. prefix (page_base fs) (req t)) \<longrightarrow>
           (\<forall>t\<in>set out. prefix (page_base fs) (req t))", OF _ assms(1)])
    fix f fs np mx i reqs out
    assume ih: "\<And>fs np mx i reqs out. f fs np mx i reqs = Some out \<Longrightarrow>
           (\<forall>t\<in>set reqs. prefix (page_base fs) (req t)) \<longrightarrow>
           (\<forall>t\<in>set out. prefix (page_base fs) (req t))"
      and body: "(if js_lt i np
           then f fs np mx (i + 1) (reqs @ [new_task (offsetPageUrl fs (int i * mx) mx)])
           else Some reqs) = Some out"
    show "(\<forall>t\<in>set reqs. prefix (page_base fs) (req t)) \<longrightarrow>
           (\<forall>t\<in>set out. prefix (page_base fs) (req t))"
    proof (cases "js_lt i np")
      case True
      with body have "f fs np mx (i + 1) (reqs @ [new_task (offsetPageUrl fs (int i * mx) mx)]) = Some out"
        by simp
      from ih[OF this] show ?thesis
        by (simp add: new_task_def offsetPageUrl_def page_base_def)
    next
      case False
      with body show ?thesis by simp
    qed
  qed
  with assms(2) show ?thesis by blast
qed


lemma rangePages_base:
  assumes "rangePages_loop fs st sz np i reqs = Some out"
    and "\<forall>t\<in>set reqs. prefix (page_base fs) (req t)"
  shows "\<forall>t\<in>set out. prefix (page_base fs) (req t)"
proof -
  have "(\<forall>t\<in>set reqs. prefix (page_base fs) (req t)) \<longrightarrow>
        (\<forall>t\<in>set out. prefix (page_base fs) (req t))"
  proof (rule rangePages_loop.raw_induct[where P = "\<lambda>fs st sz np i reqs out.
           (\<forall>t\<in>set reqs. prefix (page_base fs) (req t)) \<longrightarrow>
           (\<forall>t\<in>set out. prefix (page_base fs) (req t))", OF _ assms(1)])
    fix f fs st sz np i reqs out
    assume ih: "\<And>fs st sz np i reqs out. f fs st sz np i reqs = Some out \<Longrightarrow>
           (\<forall>t\<in>set reqs. prefix (page_base fs) (req t)) \<longrightarrow>
           (\<forall>t\<in>set out. prefix (page_base fs) (req t))"
      and body: "(if js_lt i np
           then f fs st sz np (i + 1) (reqs @ [rangePage fs st sz np i])
           else Some reqs) = Some out"
    show "(\<forall>t\<in>set reqs. prefix (page_base fs) (req t)) \<longrightarrow>
           (\<forall>t\<in>set out. prefix (page_base fs) (req t))"
    proof (cases "js_lt i np")
      case True
      with body have "f fs st sz np (i + 1) (reqs @ [rangePage fs st sz np i]) = Some out"
        by simp
      from ih[OF this] show ?thesis
        by (simp add: new_task_def rangePage_def rangePageUrl_def page_base_def Let_def)
    next
      case False
      with body show ?thesis by simp
    qed
  qed
  with assms(2) show ?thesis by blast
qed

lemma idPages_base:
  assumes "idPages_loop fs fld np sz i ids reqs = Some out"
    and "\<forall>t\<in>set reqs. prefix (page_base fs) (req t)"
  shows "\<forall>t\<in>set out. prefix (page_base fs) (req t)"
proof -
  have "(\<forall>t\<in>set reqs. prefix (page_base fs) (req t)) \<longrightarrow>
        (\<forall>t\<in>set out. prefix (page_base fs) (req t))"
  proof (rule idPages_loop.raw_induct[where P = "\<lambda>fs fld np sz i ids reqs out.
           (\<forall>t\<in>set reqs. prefix (page_base fs) (req t)) \<longrightarrow>
           (\<forall>t\<in>set out. prefix (page_base fs) (req t))", OF _ assms(1)])
    fix f fs fld np sz i ids reqs out
    assume ih: "\<And>fs fld np sz i ids reqs out. f fs fld np sz i ids reqs = Some out \<Longrightarrow>
           (\<forall>t\<in>set reqs. prefix (page_base fs) (req t)) \<longrightarrow>
           (\<forall>t\<in>set out. prefix (page_base fs) (req t))"
      and body: "(if js_lt i (js_succ np)
           then (let pageIds = take (nat sz) ids; ids' = drop (nat sz) ids
                 in f fs fld np sz (i + 1) ids'
                      (if pageIds \<noteq> [] then reqs @ [idPage fs fld pageIds] else reqs))
           else Some reqs) = Some out"
    show "(\<forall>t\<in>set reqs. prefix (page_base fs) (req t)) \<longrightarrow>
           (\<forall>t\<in>set out. prefix (page_base fs) (req t))"
    proof (cases "js_lt i (js_succ np)")
      case True
      with body have b: "f fs fld np sz (i + 1) (drop (nat sz) ids)
           (if take (nat sz) ids \<noteq> [] then reqs @ [idPage fs fld (take (nat sz) ids)] else reqs)
           = Some out"
        by (simp add: Let_def)
      have p: "prefix (page_base fs) (req (idPage fs fld (take (nat sz) ids)))"
        by (simp add: new_task_def idPage_def idPageUrl_def page_base_def Let_def)
      show ?thesis
      proof (cases "take (nat sz) ids = []")
        case True
        with b have "f fs fld np sz (i + 1) (drop (nat sz) ids) reqs = Some out" by simp
        from ih[OF this] show ?thesis .
      next
        case False
        with b have "f fs fld np sz (i + 1) (drop (nat sz) ids)
                       (reqs @ [idPage fs fld (take (nat sz) ids)]) = Some out" by simp
        from ih[OF this] p show ?thesis by simp
      qed
    next
      case False
      with body show ?thesis by simp
    qed
  qed
  with assms(2) show ?thesis by blast
qed

lemma offsetPages_on_base:
  assumes "offsetPages fs np mx = Some out" and "t \<in> set out"
  shows "prefix (page_base fs) (req t)"
proof -
  have "\<forall>t\<in>set out. prefix (page_base fs) (req t)"
    by (rule offsetPages_base[OF assms(1)[unfolded offsetPages_def]]) simp
  with assms(2) show ?thesis by blast
qed

lemma rangePages_on_base:
  assumes "rangePages fs st sz = Some out" and "t \<in> set out"
  shows "prefix (page_base fs) (req t)"
proof -
  have "\<forall>t\<in>set out. prefix (page_base fs) (req t)"
    by (rule rangePages_base[OF assms(1)[unfolded rangePages_def]]) simp
  with assms(2) show ?thesis by blast
qed

lemma idPages_on_base:
  assumes "idPages fs ids sz = Some out" and "t \<in> set out"
  shows "prefix (page_base fs) (req t)"
proof -
  have "\<forall>t\<in>set out. prefix (page_base fs) (req t)"
    by (rule idPages_base[OF assms(1)[unfolded idPages_def Let_def]]) simp
  with assms(2) show ?thesis by blast
qed

lemma parseInt_nonempty: "parseInt e = Some n \<Longrightarrow> e \<noteq> []"
  by (auto simp: parseInt_def)

lemma constructed_layer:
  assumes "FeatureService u opts = Some fs"
  shows "layer fs =
     (if (case parseInt (last (split ''/'' u)) of None \<Rightarrow> False | Some n \<Rightarrow> 0 \<le> n)
      then Str (last (split ''/'' u))
      else or_else (layer_option (options fs)) (Num 0))"
proof -
  define e where "e = last (split ''/'' u)"
  define found where "found = (case parseInt e of None \<Rightarrow> False | Some n \<Rightarrow> 0 \<le> n)"
  define os where "os = (case opts of
                    None \<Rightarrow> \<lparr>layer_option = Undefined, objectIdField = None\<rparr>
                  | Some opts \<Rightarrow> opts)"
  from assms have l: "layer fs = or_else (or_else (if found then Str e else Undefined) (layer_option os)) (Num 0)"
    and op: "options fs = os"
    unfolding FeatureService_def Let_def e_def[symmetric] found_def[symmetric] os_def[symmetric]
    by (auto split: if_splits)
  show ?thesis
  proof (cases found)
    case True
    then obtain n where "parseInt e = Some n" by (auto simp: found_def split: option.splits)
    then have "e \<noteq> []" by (rule parseInt_nonempty)
    with True l show ?thesis
      unfolding e_def[symmetric] found_def[symmetric] by (simp add: or_else_def)
  next
    case False
    with l op show ?thesis
      unfolding e_def[symmetric] found_def[symmetric] by (simp add: or_else_def)
  qed
qed

lemma layer3_urls:
  "offsetPageUrl layer3_service 0 100 =
     ''http://host/FeatureServer/0/query?outSR=4326&f=json&outFields=*&where=1=1&resultOffset=0&resultRecordCount=100&geometry=&returnGeometry=true&geometryPrecision=''"
  "rangePageUrl layer3_service ''50'' ''1'' =
     ''http://host/FeatureServer/0/query?outSR=4326&where=OBJECTID<=50+AND+OBJECTID>=1&f=json&outFields=*&geometry=&returnGeometry=true&geometryPrecision=''"
  "idPageUrl layer3_service ''OBJECTID > 0 AND oidField<=2'' =
     ''http://host/FeatureServer/0/query?outSR=4326&where=OBJECTID > 0 AND oidField<=2&f=json&outFields=*&geometry=&returnGeometry=true&geometryPrecision=10''"
  by (simp_all add: offsetPageUrl_def rangePageUrl_def idPageUrl_def layer3_service_def
        or_else_def str_text_def show_int_small)

lemma layer3_constructed:
  "FeatureService ''http://host/FeatureServer/3''
     (Some \<lparr>layer_option = Undefined, objectIdField = Some ''OBJECTID''\<rparr>) = Some layer3_service"
  by (simp add: FeatureService_def split_def parseInt_def is_space_def is_digit_def
        digit_value_def digits_value_def or_else_def layer3_service_def Let_def)

lemma layer3_offset:
  "offsetPages layer3_service (Fin 1) 100 =
     Some [new_task ''http://host/FeatureServer/0/query?outSR=4326&f=json&outFields=*&where=1=1&resultOffset=0&resultRecordCount=100&geometry=&returnGeometry=true&geometryPrecision='']"
  by (simp add: offsetPages_def offsetPages_loop.simps layer3_urls)

lemma layer3_range:
  "rangePages layer3_service \<lparr>smin = Some 1, smax = Some 50\<rparr> 100 =
     Some [new_task ''http://host/FeatureServer/0/query?outSR=4326&where=OBJECTID<=50+AND+OBJECTID>=1&f=json&outFields=*&geometry=&returnGeometry=true&geometryPrecision='']"
proof -
  have s: "show_int 50 = ''50''" by (simp add: show_int_def show_nat.simps digit_def)
  have c: "\<lceil>(49::rat) / 100\<rceil> = 1" by (rule ceiling_unique) simp_all
  show ?thesis
    by (simp add: rangePages_def rangePages_pages_def js_div_def rangePages_loop.simps
          rangePage_def min_plus_def opt_text_def s c show_int_small layer3_urls)
qed

lemma layer3_id:
  "idPages layer3_service [1, 2] 100 =
     Some [new_task ''http://host/FeatureServer/0/query?outSR=4326&where=OBJECTID > 0 AND oidField<=2&f=json&outFields=*&geometry=&returnGeometry=true&geometryPrecision=10'']"
proof -
  have o: "objectIdField (options layer3_service) = Some ''OBJECTID''"
    by (simp add: layer3_service_def)
  have w: "idWhere ''OBJECTID'' 0 2 = ''OBJECTID > 0 AND oidField<=2''"
    by (simp add: idWhere_def show_int_small)
  show ?thesis
    by (simp add: idPages_def o js_div_def idPages_loop.simps idPage_def w layer3_urls Let_def)
qed

lemma layer3_base:
  "url layer3_service @ ''/'' @ to_text (layer layer3_service) = ''http://host/FeatureServer/3''"
  by (simp add: layer3_service_def)

text \<open>
  C9 at the URL \<open>http://host/FeatureServer/3\<close>: the constructor strips the segment and keeps
  layer 3, so \<open>{serviceUrl}/{layer}\<close> is \<open>http://host/FeatureServer/3\<close>; the requests of the
  three strategies are on layer 0, the layer of the options.
\<close>

theorem page_urls_ignore_url_layer:
  "FeatureService ''http://host/FeatureServer/3''
     (Some \<lparr>layer_option = Undefined, objectIdField = Some ''OBJECTID''\<rparr>) = Some layer3_service
   \<and> url layer3_service @ ''/'' @ to_text (layer layer3_service) = ''http://host/FeatureServer/3''
   \<and> offsetPages layer3_service (Fin 1) 100 =
       Some [new_task ''http://host/FeatureServer/0/query?outSR=4326&f=json&outFields=*&where=1=1&resultOffset=0&resultRecordCount=100&geometry=&returnGeometry=true&geometryPrecision='']
   \<and> rangePages layer3_service \<lparr>smin = Some 1, smax = Some 50\<rparr> 100 =
       Some [new_task ''http://host/FeatureServer/0/query?outSR=4326&where=OBJECTID<=50+AND+OBJECTID>=1&f=json&outFields=*&geometry=&returnGeometry=true&geometryPrecision='']
   \<and> idPages layer3_service [1, 2] 100 =
       Some [new_task ''http://host/FeatureServer/0/query?outSR=4326&where=OBJECTID > 0 AND oidField<=2&f=json&outFields=*&geometry=&returnGeometry=true&geometryPrecision=10'']
   \<and> \<not> prefix ''http://host/FeatureServer/3''
         ''http://host/FeatureServer/0/query?outSR=4326&f=json&outFields=*&where=1=1&resultOffset=0&resultRecordCount=100&geometry=&returnGeometry=true&geometryPrecision=''"
proof -
  have "\<not> prefix ''http://host/FeatureServer/3''
         ''http://host/FeatureServer/0/query?outSR=4326&f=json&outFields=*&where=1=1&resultOffset=0&resultRecordCount=100&geometry=&returnGeometry=true&geometryPrecision=''"
    by simp
  with layer3_constructed layer3_base layer3_offset layer3_range layer3_id
  show ?thesis by blast
qed


end
